theory Spec2Isabelle
  imports Main "HOL-Library.Word"
begin

unbundle bit_operations_syntax

section \<open>FT260 USB HID to I2C/UART bridge (hid-ft260.c)\<close>

text \<open>
  A shallow embedding of the transaction engine and of the UART bridge of
  \<^verbatim>\<open>hid-ft260.c\<close>. Driver state is the record \<open>ft260_device\<close>; everything outside
  the driver (the HID transport, the allocator, the clock, the tty layer, caller memory)
  is the record \<open>world\<close>: it logs every call the driver makes in \<open>trace\<close> and answers
  each call from an oracle indexed by the number of calls made so far, so every theorem
  holds for every behaviour of the environment. The host is taken to be little-endian
  and C \<open>int\<close> arithmetic is modelled on \<open>int\<close> (no value in the modelled paths
  leaves the 32-bit range).
\<close>

subsection \<open>Machine types and constants\<close>

type_synonym u8 = "8 word"
type_synonym u16 = "16 word"
type_synonym u32 = "32 word"

text \<open>C integer division truncates towards zero.\<close>

definition c_div :: "int \<Rightarrow> int \<Rightarrow> int" where
  "c_div a b = sgn a * sgn b * (\<bar>a\<bar> div \<bar>b\<bar>)"

definition FIFO_SIZE :: nat where "FIFO_SIZE = 256"
definition TTY_WAKEUP_WATERMARK :: nat where "TTY_WAKEUP_WATERMARK = FIFO_SIZE div 2"

definition FT260_REPORT_MAX_LENGTH :: nat where "FT260_REPORT_MAX_LENGTH = 64"
definition FT260_RD_DATA_MAX :: nat where "FT260_RD_DATA_MAX = 180"
definition FT260_WR_DATA_MAX :: nat where "FT260_WR_DATA_MAX = 60"

text \<open>Report IDs.\<close>

definition FT260_CHIP_VERSION :: u8 where "FT260_CHIP_VERSION = 0xA0"
definition FT260_SYSTEM_SETTINGS :: u8 where "FT260_SYSTEM_SETTINGS = 0xA1"
definition FT260_I2C_STATUS :: u8 where "FT260_I2C_STATUS = 0xC0"
definition FT260_I2C_READ_REQ :: u8 where "FT260_I2C_READ_REQ = 0xC2"
definition FT260_I2C_REPORT_MIN :: u8 where "FT260_I2C_REPORT_MIN = 0xD0"
definition FT260_I2C_REPORT_MAX :: u8 where "FT260_I2C_REPORT_MAX = 0xDE"
definition FT260_UART_REPORT_MIN :: u8 where "FT260_UART_REPORT_MIN = 0xF0"
definition FT260_UART_REPORT_MAX :: u8 where "FT260_UART_REPORT_MAX = 0xFE"

text \<open>Feature-out requests.\<close>

definition FT260_SET_I2C_RESET :: u8 where "FT260_SET_I2C_RESET = 0x20"
definition FT260_SET_UART_CONFIG :: u8 where "FT260_SET_UART_CONFIG = 0x41"

text \<open>Response codes in the I2C status report.\<close>

definition FT260_I2C_STATUS_CTRL_BUSY :: u8 where "FT260_I2C_STATUS_CTRL_BUSY = 0x01"
definition FT260_I2C_STATUS_ERROR :: u8 where "FT260_I2C_STATUS_ERROR = 0x02"
definition FT260_I2C_STATUS_BUS_BUSY :: u8 where "FT260_I2C_STATUS_BUS_BUSY = 0x40"

text \<open>I2C condition flags.\<close>

definition FT260_FLAG_NONE :: u8 where "FT260_FLAG_NONE = 0x00"
definition FT260_FLAG_START :: u8 where "FT260_FLAG_START = 0x02"
definition FT260_FLAG_START_REPEATED :: u8 where "FT260_FLAG_START_REPEATED = 0x03"
definition FT260_FLAG_STOP :: u8 where "FT260_FLAG_STOP = 0x04"
definition FT260_FLAG_START_STOP :: u8 where "FT260_FLAG_START_STOP = 0x06"
definition FT260_FLAG_START_STOP_REPEATED :: u8 where "FT260_FLAG_START_STOP_REPEATED = 0x07"

text \<open>UART configuration values.\<close>

definition FT260_CFG_FLOW_CTRL_OFF :: u8 where "FT260_CFG_FLOW_CTRL_OFF = 0x00"
definition FT260_CFG_FLOW_CTRL_RTS_CTS :: u8 where "FT260_CFG_FLOW_CTRL_RTS_CTS = 0x01"
definition FT260_CFG_FLOW_CTRL_NONE :: u8 where "FT260_CFG_FLOW_CTRL_NONE = 0x04"
definition FT260_CFG_DATA_BITS_7 :: u8 where "FT260_CFG_DATA_BITS_7 = 0x07"
definition FT260_CFG_DATA_BITS_8 :: u8 where "FT260_CFG_DATA_BITS_8 = 0x08"
definition FT260_CFG_PAR_NO :: u8 where "FT260_CFG_PAR_NO = 0x00"
definition FT260_CFG_PAR_ODD :: u8 where "FT260_CFG_PAR_ODD = 0x01"
definition FT260_CFG_PAR_EVEN :: u8 where "FT260_CFG_PAR_EVEN = 0x02"
definition FT260_CFG_STOP_ONE_BIT :: u8 where "FT260_CFG_STOP_ONE_BIT = 0x00"
definition FT260_CFG_STOP_TWO_BIT :: u8 where "FT260_CFG_STOP_TWO_BIT = 0x02"
definition FT260_CFG_BREAKING_NO :: u8 where "FT260_CFG_BREAKING_NO = 0x00"
definition FT260_CFG_BAUD_MIN :: u32 where "FT260_CFG_BAUD_MIN = 1200"
definition FT260_CFG_BAUD_MAX :: u32 where "FT260_CFG_BAUD_MAX = 12000000"

text \<open>Kernel error numbers (asm-generic).\<close>

definition EIO :: int where "EIO = 5"
definition EAGAIN :: int where "EAGAIN = 11"
definition ENOMEM :: int where "ENOMEM = 12"
definition EINVAL :: int where "EINVAL = 22"
definition EBADR :: int where "EBADR = 53"
definition EOPNOTSUPP :: int where "EOPNOTSUPP = 95"
definition ETIMEDOUT :: int where "ETIMEDOUT = 110"

lemmas ft260_consts =
  FIFO_SIZE_def TTY_WAKEUP_WATERMARK_def FT260_REPORT_MAX_LENGTH_def
  FT260_RD_DATA_MAX_def FT260_WR_DATA_MAX_def
  FT260_CHIP_VERSION_def FT260_SYSTEM_SETTINGS_def FT260_I2C_STATUS_def
  FT260_I2C_READ_REQ_def FT260_I2C_REPORT_MIN_def FT260_I2C_REPORT_MAX_def
  FT260_UART_REPORT_MIN_def FT260_UART_REPORT_MAX_def
  FT260_SET_I2C_RESET_def FT260_SET_UART_CONFIG_def
  FT260_I2C_STATUS_CTRL_BUSY_def FT260_I2C_STATUS_ERROR_def FT260_I2C_STATUS_BUS_BUSY_def
  FT260_FLAG_NONE_def FT260_FLAG_START_def FT260_FLAG_START_REPEATED_def
  FT260_FLAG_STOP_def FT260_FLAG_START_STOP_def FT260_FLAG_START_STOP_REPEATED_def
  FT260_CFG_FLOW_CTRL_OFF_def FT260_CFG_FLOW_CTRL_RTS_CTS_def FT260_CFG_FLOW_CTRL_NONE_def
  FT260_CFG_DATA_BITS_7_def FT260_CFG_DATA_BITS_8_def
  FT260_CFG_PAR_NO_def FT260_CFG_PAR_ODD_def FT260_CFG_PAR_EVEN_def
  FT260_CFG_STOP_ONE_BIT_def FT260_CFG_STOP_TWO_BIT_def FT260_CFG_BREAKING_NO_def
  FT260_CFG_BAUD_MIN_def FT260_CFG_BAUD_MAX_def
  EIO_def EAGAIN_def ENOMEM_def EINVAL_def EBADR_def EOPNOTSUPP_def ETIMEDOUT_def

text \<open>
  \<^verbatim>\<open>FT260_I2C_DATA_REPORT_ID(len)\<close> and \<^verbatim>\<open>FT260_UART_DATA_REPORT_ID(len)\<close>: the
  macro is evaluated on \<open>int\<close> and the result is stored into a \<open>u8\<close> field.
\<close>

definition FT260_I2C_DATA_REPORT_ID :: "int \<Rightarrow> u8" where
  "FT260_I2C_DATA_REPORT_ID len = word_of_int (uint FT260_I2C_REPORT_MIN + c_div (len - 1) 4)"

definition FT260_UART_DATA_REPORT_ID :: "int \<Rightarrow> u8" where
  "FT260_UART_DATA_REPORT_ID len = word_of_int (uint FT260_UART_REPORT_MIN + c_div (len - 1) 4)"

subsection \<open>The environment\<close>

text \<open>
  An inbound input report as \<^verbatim>\<open>struct ft260_input_report\<close> sees it: the report ID,
  the length byte, and the bytes that follow the two-byte header in the transport's
  buffer (indexed from 0).
\<close>

record input_report =
  report :: u8
  length_field :: u8
  payload :: "nat \<Rightarrow> u8"

text \<open>The fields of \<^verbatim>\<open>struct ktermios\<close> that the driver and the baud-rate helpers use.\<close>

record ktermios =
  c_cflag :: u32
  c_ispeed :: u32
  c_ospeed :: u32

datatype event =
    Output_report "u8 list"
  | Get_report u8 nat
  | Set_report "u8 list"
  | Usleep_range int int
  | Memcpy nat "u8 list"
  | Tty_wakeup
  | Flip_insert "u8 list"
  | Flip_push
  | Schedule_work
  | Mod_timer

text \<open>
  \<open>Output_report bs\<close>: \<^verbatim>\<open>hid_hw_output_report\<close> was called with the bytes \<open>bs\<close>;
  \<open>Get_report id n\<close> and \<open>Set_report bs\<close>: \<^verbatim>\<open>hid_hw_raw_request\<close> for a feature
  report; \<open>Usleep_range lo hi\<close>: \<^verbatim>\<open>usleep_range\<close>; \<open>Memcpy a bs\<close>: the bytes
  \<open>bs\<close> were copied into the memory of a caller at address \<open>a\<close>; the others are the
  tty and timer calls of the same name.
\<close>

record world =
  trace :: "event list"
  memory :: "nat \<Rightarrow> u8"
  alloc_fails :: "nat \<Rightarrow> bool"
  n_alloc :: nat
  output_ret :: "nat \<Rightarrow> int"
  n_output :: nat
  request_ret :: "nat \<Rightarrow> int \<times> (nat \<Rightarrow> u8)"
  n_request :: nat
  jiffies_at :: "nat \<Rightarrow> nat"
  n_jiffies :: nat
  wakeup_jiffies :: nat
  inbound :: "nat \<Rightarrow> input_report list"
  n_wait :: nat
  flip_room :: "nat \<Rightarrow> nat"
  n_flip :: nat
  tty_termios :: "nat \<Rightarrow> ktermios"
  tty_termios_baud_rate :: "ktermios \<Rightarrow> u32"
  tty_encode_baud_rate :: "ktermios \<Rightarrow> u32 \<Rightarrow> u32 \<Rightarrow> ktermios"

text \<open>
  \<open>memory\<close> is the memory of the callers (message buffers), addressed by \<open>nat\<close>.
  \<open>alloc_fails k\<close>: the \<open>k\<close>-th \<^verbatim>\<open>kmalloc\<close>/\<^verbatim>\<open>kmemdup\<close> returns NULL.
  \<open>output_ret k\<close>: what the \<open>k\<close>-th \<^verbatim>\<open>hid_hw_output_report\<close> returns.
  \<open>request_ret k\<close>: what the \<open>k\<close>-th \<^verbatim>\<open>hid_hw_raw_request\<close> returns and leaves in
  the buffer. \<open>jiffies_at k\<close>: the \<open>k\<close>-th reading of \<^verbatim>\<open>jiffies\<close> (wrap-around of
  the counter is not modelled); \<open>wakeup_jiffies\<close> is
  \<^verbatim>\<open>msecs_to_jiffies(FT260_WAKEUP_NEEDED_AFTER_MS)\<close>. \<open>inbound k\<close>: the input reports
  the transport delivers while the driver waits for the \<open>k\<close>-th time on its completion.
  \<open>flip_room k\<close>: the room of the tty flip buffer at the \<open>k\<close>-th insertion.
  \<open>tty_termios t\<close>: the \<^verbatim>\<open>termios\<close> of the tty \<open>t\<close> (ttys are named by numbers).
  \<open>tty_termios_baud_rate\<close> and \<open>tty_encode_baud_rate\<close> are the kernel functions of
  that name, as functions on the termios they read or update; no theorem assumes
  anything about them.
\<close>

text \<open>
  A call that traps does not return: its outcome is \<open>Inl\<close> of the fault and of the
  environment at that moment; a call that returns gives \<open>Inr\<close> of the return value,
  the device and the environment.
\<close>

datatype fault = Divide_error | Null_dereference

subsection \<open>Driver state\<close>

record ft260_device =
  ft260_is_serial :: bool
  port_tty :: "nat option"
  xmit_fifo :: "u8 list"
  icount_tx :: u32
  icount_rx :: u32
  timer_pending :: bool
  work_pending :: bool
  reschedule_work :: bool
  wait_done :: nat
  write_buf :: "nat \<Rightarrow> u8"
  need_wakeup_at :: nat
  read_buf :: "nat option"
  read_idx :: u16
  read_len :: u16
  clock :: u16

text \<open>
  \<open>port_tty\<close> is \<^verbatim>\<open>port.tty\<close> (\<open>None\<close> for NULL), \<open>xmit_fifo\<close> the content of the
  kfifo, oldest byte first, \<open>timer_pending\<close> and \<open>work_pending\<close> say whether
  \<^verbatim>\<open>wakeup_timer\<close> is armed and \<^verbatim>\<open>wakeup_work\<close> is queued, \<open>wait_done\<close> is the
  counter of the completion \<^verbatim>\<open>wait\<close>, \<open>write_buf\<close> the staging array, and
  \<open>read_buf\<close> an address in \<open>memory\<close> (\<open>None\<close> for NULL).
\<close>

text \<open>Byte offsets of \<^verbatim>\<open>struct ft260_i2c_write_request_report\<close> in \<open>write_buf\<close>.\<close>

definition rep_report :: nat where "rep_report = 0"
definition rep_address :: nat where "rep_address = 1"
definition rep_flag :: nat where "rep_flag = 2"
definition rep_length :: nat where "rep_length = 3"
definition rep_data :: nat where "rep_data = 4"

lemmas rep_offsets = rep_report_def rep_address_def rep_flag_def rep_length_def rep_data_def

definition memcpy :: "(nat \<Rightarrow> u8) \<Rightarrow> nat \<Rightarrow> u8 list \<Rightarrow> (nat \<Rightarrow> u8)" where
  "memcpy m dst src = (\<lambda>a. if dst \<le> a \<and> a < dst + length src then src ! (a - dst) else m a)"

definition bytes_at :: "(nat \<Rightarrow> u8) \<Rightarrow> nat \<Rightarrow> nat \<Rightarrow> u8 list" where
  "bytes_at m a n = map m [a ..< a + n]"

definition log_event :: "event \<Rightarrow> world \<Rightarrow> world" where
  "log_event e w = w\<lparr>trace := trace w @ [e]\<rparr>"

definition kmalloc :: "world \<Rightarrow> bool \<times> world" where
  "kmalloc w = (\<not> alloc_fails w (n_alloc w), w\<lparr>n_alloc := Suc (n_alloc w)\<rparr>)"

definition read_jiffies :: "world \<Rightarrow> nat \<times> world" where
  "read_jiffies w = (jiffies_at w (n_jiffies w), w\<lparr>n_jiffies := Suc (n_jiffies w)\<rparr>)"

subsection \<open>Transport helpers\<close>

text \<open>
  \<^verbatim>\<open>ft260_hid_feature_report_get\<close>: \<open>Inr buf\<close> when the request returned \<open>len\<close> and
  the buffer was copied to the caller (the C function then returns \<open>len\<close>), \<open>Inl ret\<close>
  with the negative \<open>ret\<close> it returns otherwise.
\<close>

definition ft260_hid_feature_report_get ::
  "world \<Rightarrow> u8 \<Rightarrow> nat \<Rightarrow> (int + (nat \<Rightarrow> u8)) \<times> world" where
  "ft260_hid_feature_report_get w report_id len =
     (case kmalloc w of
        (False, w1) \<Rightarrow> (Inl (- ENOMEM), w1)
      | (True, w1) \<Rightarrow>
          (let (ret, buf) = request_ret w1 (n_request w1);
               w2 = log_event (Get_report report_id len) (w1\<lparr>n_request := Suc (n_request w1)\<rparr>)
           in if ret = int len then (Inr buf, w2)
              else if ret \<ge> 0 then (Inl (- EIO), w2)
              else (Inl ret, w2)))"

definition ft260_hid_feature_report_set :: "world \<Rightarrow> u8 list \<Rightarrow> int \<times> world" where
  "ft260_hid_feature_report_set w data =
     (case kmalloc w of
        (False, w1) \<Rightarrow> (- ENOMEM, w1)
      | (True, w1) \<Rightarrow>
          (let buf = data[0 := FT260_SYSTEM_SETTINGS];
               ret = fst (request_ret w1 (n_request w1));
               w2 = log_event (Set_report buf) (w1\<lparr>n_request := Suc (n_request w1)\<rparr>)
           in (ret, w2)))"

text \<open>
  \<^verbatim>\<open>ft260_i2c_reset\<close>: the first byte of the report is not initialised by the caller
  and is overwritten in \<open>ft260_hid_feature_report_set\<close>.
\<close>

definition ft260_i2c_reset :: "world \<Rightarrow> int \<times> world" where
  "ft260_i2c_reset w = ft260_hid_feature_report_set w [0, FT260_SET_I2C_RESET]"

definition le16_to_cpu :: "u8 \<Rightarrow> u8 \<Rightarrow> u16" where
  "le16_to_cpu lo hi = ucast lo OR push_bit 8 (ucast hi)"

definition ft260_xfer_status ::
  "ft260_device \<Rightarrow> world \<Rightarrow> u8 \<Rightarrow> int \<times> ft260_device \<times> world" where
  "ft260_xfer_status dev w bus_busy =
     (let (now, w0) = read_jiffies w;
          (dev1, w1) =
            (if need_wakeup_at dev < now then
               (case ft260_hid_feature_report_get w0 FT260_I2C_STATUS 5 of
                  (Inl ret, w') \<Rightarrow> (dev, w')
                | (Inr rep, w') \<Rightarrow>
                    (let (j, w'') = read_jiffies w'
                     in (dev\<lparr>need_wakeup_at := j + wakeup_jiffies w''\<rparr>, w'')))
             else (dev, w0))
      in case ft260_hid_feature_report_get w1 FT260_I2C_STATUS 5 of
           (Inl ret, w2) \<Rightarrow> (ret, dev1, w2)
         | (Inr rep, w2) \<Rightarrow>
             (let dev2 = dev1\<lparr>clock := le16_to_cpu (rep 2) (rep 3)\<rparr>;
                  bus_status = rep 1
              in if bus_status AND (FT260_I2C_STATUS_CTRL_BUSY OR bus_busy) \<noteq> 0
                 then (- EAGAIN, dev2, w2)
                 else if bus_status AND FT260_I2C_STATUS_ERROR \<noteq> 0
                 then (- EIO, dev2, w2)
                 else (0, dev2, w2)))"

text \<open>
  \<open>ft260_hid_output_report\<close>; \<open>bytes\<close> are the \<open>len\<close> bytes at \<open>data\<close>.
\<close>

definition ft260_hid_output_report :: "world \<Rightarrow> u8 list \<Rightarrow> int \<times> world" where
  "ft260_hid_output_report w bytes =
     (case kmalloc w of
        (False, w1) \<Rightarrow> (- ENOMEM, w1)
      | (True, w1) \<Rightarrow>
          (output_ret w1 (n_output w1),
           log_event (Output_report bytes) (w1\<lparr>n_output := Suc (n_output w1)\<rparr>)))"

text \<open>
  The status loop of \<open>ft260_hid_output_report_check_status\<close>:
  \<^verbatim>\<open>do { ret = ft260_xfer_status(dev, bus_busy); if (ret != -EAGAIN) break; } while (--try);\<close>
  The argument counts the tries left after the current one.
\<close>

fun status_retry ::
  "nat \<Rightarrow> ft260_device \<Rightarrow> world \<Rightarrow> u8 \<Rightarrow> int \<times> ft260_device \<times> world" where
  "status_retry 0 dev w bus_busy = ft260_xfer_status dev w bus_busy"
| "status_retry (Suc n) dev w bus_busy =
     (case ft260_xfer_status dev w bus_busy of
        (ret, dev', w') \<Rightarrow>
          if ret \<noteq> - EAGAIN then (ret, dev', w') else status_retry n dev' w' bus_busy)"

text \<open>
  \<open>ft260_hid_output_report_check_status\<close>; \<open>data\<close> is the report (the callers pass
  \<open>write_buf\<close>). The division by \<^verbatim>\<open>dev->clock\<close> traps when the cached clock is 0.
\<close>

definition ft260_hid_output_report_check_status ::
  "ft260_device \<Rightarrow> world \<Rightarrow> (nat \<Rightarrow> u8) \<Rightarrow> int \<Rightarrow> (fault \<times> world) + (int \<times> ft260_device \<times> world)" where
  "ft260_hid_output_report_check_status dev w data len =
     (case ft260_hid_output_report w (bytes_at data 0 (nat len)) of
        (ret, w1) \<Rightarrow>
          if ret < 0 then Inr (ret, dev, snd (ft260_i2c_reset w1))
          else if clock dev = 0 then Inl (Divide_error, w1)
          else
            (let usec = c_div (len * 9000) (uint (clock dev));
                 w2 = (if usec > 2000
                       then log_event (Usleep_range (usec - 1500) (usec - 1500 + 100)) w1
                       else w1);
                 bus_busy = (if data rep_flag = FT260_FLAG_START then 0
                             else FT260_I2C_STATUS_BUS_BUSY)
             in case status_retry 99 dev w2 bus_busy of
                  (ret', dev', w3) \<Rightarrow>
                    if ret' = 0 then Inr (0, dev', w3)
                    else Inr (- EIO, dev', snd (ft260_i2c_reset w3))))"

subsection \<open>I2C write\<close>

text \<open>The body of the \<^verbatim>\<open>do ... while (len > 0)\<close> loop of \<open>ft260_i2c_write\<close>.\<close>

function ft260_i2c_write_loop ::
  "ft260_device \<Rightarrow> world \<Rightarrow> u8 \<Rightarrow> nat \<Rightarrow> int \<Rightarrow> int \<Rightarrow> u8 \<Rightarrow>
     (fault \<times> world) + (int \<times> ft260_device \<times> world)" where
  "ft260_i2c_write_loop dev w addr data len idx flag =
     (let wr_len = (if len \<le> int FT260_WR_DATA_MAX then len else int FT260_WR_DATA_MAX);
          wb0 = write_buf dev;
          wb1 = (if len \<le> int FT260_WR_DATA_MAX \<and> flag = FT260_FLAG_START_STOP
                 then wb0(rep_flag := wb0 rep_flag OR FT260_FLAG_STOP) else wb0);
          wb2 = wb1(rep_report := FT260_I2C_DATA_REPORT_ID wr_len,
                    rep_address := addr,
                    rep_length := word_of_int wr_len);
          wb3 = memcpy wb2 rep_data (bytes_at (memory w) (nat (int data + idx)) (nat wr_len));
          dev1 = dev\<lparr>write_buf := wb3\<rparr>
      in case ft260_hid_output_report_check_status dev1 w wb3 (wr_len + 4) of
           Inl f \<Rightarrow> Inl f
         | Inr (ret, dev2, w2) \<Rightarrow>
             if ret < 0 then Inr (ret, dev2, w2)
             else
               (let dev3 = dev2\<lparr>write_buf := (write_buf dev2)(rep_flag := 0)\<rparr>
                in if len - wr_len > 0
                   then ft260_i2c_write_loop dev3 w2 addr data (len - wr_len) (idx + wr_len) flag
                   else Inr (0, dev3, w2)))"
  by pat_completeness auto
termination
  by (relation "measure (\<lambda>(dev, w, addr, data, len, idx, flag). nat len)")
     (auto simp: FT260_WR_DATA_MAX_def split: if_splits)

definition ft260_i2c_write ::
  "ft260_device \<Rightarrow> world \<Rightarrow> u8 \<Rightarrow> nat \<Rightarrow> int \<Rightarrow> u8 \<Rightarrow>
     (fault \<times> world) + (int \<times> ft260_device \<times> world)" where
  "ft260_i2c_write dev w addr data len flag =
     (if len < 1 then Inr (- EINVAL, dev, w)
      else ft260_i2c_write_loop
             (dev\<lparr>write_buf := (write_buf dev)(rep_flag := FT260_FLAG_START)\<rparr>)
             w addr data len 0 flag)"


subsection \<open>Inbound reports and I2C read\<close>

definition ft260_uart_receive_chars ::
  "ft260_device \<Rightarrow> world \<Rightarrow> (nat \<Rightarrow> u8) \<Rightarrow> u8 \<Rightarrow> int \<times> ft260_device \<times> world" where
  "ft260_uart_receive_chars port w data len =
     (if unat len > FT260_RD_DATA_MAX then (- EBADR, port, w)
      else
        (let ret = min (unat len) (flip_room w (n_flip w));
             w1 = log_event (Flip_insert (bytes_at data 0 ret)) (w\<lparr>n_flip := Suc (n_flip w)\<rparr>);
             port1 = port\<lparr>icount_rx := icount_rx port + word_of_nat ret\<rparr>;
             w2 = (if ret \<noteq> 0 then log_event Flip_push w1 else w1)
         in (int ret, port1, w2)))"

text \<open>
  \<open>ft260_raw_event\<close>. The comparison \<^verbatim>\<open>xfer->length > dev->read_len - dev->read_idx\<close>
  is made on \<open>int\<close> after integer promotion; \<^verbatim>\<open>dev->read_idx += xfer->length\<close> wraps
  at 16 bits; \<^verbatim>\<open>complete(&dev->wait)\<close> increments the completion counter.
\<close>

definition ft260_raw_event ::
  "ft260_device \<Rightarrow> world \<Rightarrow> input_report \<Rightarrow> int \<times> ft260_device \<times> world" where
  "ft260_raw_event dev w xfer =
     (if report xfer \<ge> FT260_I2C_REPORT_MIN \<and> report xfer \<le> FT260_I2C_REPORT_MAX then
        (case read_buf dev of
           None \<Rightarrow> (- 1, dev, w)
         | Some buf \<Rightarrow>
             if uint (length_field xfer) > uint (read_len dev) - uint (read_idx dev)
             then (- 1, dev, w)
             else
               (let bytes = bytes_at (payload xfer) 0 (unat (length_field xfer));
                    dst = buf + unat (read_idx dev);
                    w1 = log_event (Memcpy dst bytes)
                           (w\<lparr>memory := memcpy (memory w) dst bytes\<rparr>);
                    dev1 = dev\<lparr>read_idx := read_idx dev + ucast (length_field xfer)\<rparr>;
                    dev2 = (if read_idx dev1 = read_len dev1
                            then dev1\<lparr>wait_done := Suc (wait_done dev1)\<rparr> else dev1)
                in (0, dev2, w1)))
      else if unat (length_field xfer) > FT260_RD_DATA_MAX then (- EBADR, dev, w)
      else if report xfer \<ge> FT260_UART_REPORT_MIN \<and> report xfer \<le> FT260_UART_REPORT_MAX then
        ft260_uart_receive_chars dev w (payload xfer) (length_field xfer)
      else (0, dev, w))"

text \<open>
  Waiting on the completion: the transport delivers its next batch of input reports
  through \<open>ft260_raw_event\<close>; the wait succeeds when the completion was signalled, and
  times out otherwise.
\<close>

fun deliver :: "ft260_device \<Rightarrow> world \<Rightarrow> input_report list \<Rightarrow> ft260_device \<times> world" where
  "deliver dev w [] = (dev, w)"
| "deliver dev w (x # xs) =
     (case ft260_raw_event dev w x of (ret, dev', w') \<Rightarrow> deliver dev' w' xs)"

definition wait_for_completion_timeout ::
  "ft260_device \<Rightarrow> world \<Rightarrow> bool \<times> ft260_device \<times> world" where
  "wait_for_completion_timeout dev w =
     (case deliver dev (w\<lparr>n_wait := Suc (n_wait w)\<rparr>) (inbound w (n_wait w)) of
        (dev1, w1) \<Rightarrow>
          if wait_done dev1 > 0 then (True, dev1\<lparr>wait_done := wait_done dev1 - 1\<rparr>, w1)
          else (False, dev1, w1))"

text \<open>
  The \<^verbatim>\<open>do ... while (len > 0)\<close> loop of \<open>ft260_i2c_read\<close>. The local
  \<^verbatim>\<open>rd_data_max\<close> is 60 in the first iteration and \<^verbatim>\<open>FT260_RD_DATA_MAX\<close> in every
  later one: \<open>first\<close> says which. The result is \<^verbatim>\<open>ret\<close> at the label
  \<^verbatim>\<open>ft260_i2c_read_exit\<close>.
\<close>

function ft260_i2c_read_loop ::
  "ft260_device \<Rightarrow> world \<Rightarrow> u8 \<Rightarrow> nat \<Rightarrow> u16 \<Rightarrow> u8 \<Rightarrow> bool \<Rightarrow> u8 \<Rightarrow>
     int \<times> ft260_device \<times> world" where
  "ft260_i2c_read_loop dev w addr data len flag first bus_busy =
     (let rd_data_max = (if first then 60 else word_of_nat FT260_RD_DATA_MAX) :: u16;
          rd_len = (if len \<le> rd_data_max then len else rd_data_max);
          flag1 = (if len \<le> rd_data_max then flag OR FT260_FLAG_STOP else flag);
          rep = [FT260_I2C_READ_REQ, addr, flag1, ucast rd_len, ucast (drop_bit 8 rd_len)];
          dev1 = dev\<lparr>wait_done := 0, read_idx := 0, read_buf := Some data, read_len := rd_len\<rparr>
      in case ft260_hid_output_report w rep of
           (ret, w1) \<Rightarrow>
             if ret < 0 then (ret, dev1, w1)
             else
               (case wait_for_completion_timeout dev1 w1 of
                  (False, dev2, w2) \<Rightarrow> (- ETIMEDOUT, dev2, snd (ft260_i2c_reset w2))
                | (True, dev2, w2) \<Rightarrow>
                    (let dev3 = dev2\<lparr>read_buf := None\<rparr>;
                         bus_busy1 = (if flag1 AND FT260_FLAG_STOP \<noteq> 0
                                      then FT260_I2C_STATUS_BUS_BUSY else bus_busy)
                     in case ft260_xfer_status dev3 w2 bus_busy1 of
                          (ret', dev4, w3) \<Rightarrow>
                            if ret' < 0 then (- EIO, dev4, snd (ft260_i2c_reset w3))
                            else if len - rd_len > 0
                            then ft260_i2c_read_loop dev4 w3 addr (data + unat rd_len)
                                   (len - rd_len) 0 False bus_busy1
                            else (ret', dev4, w3))))"
  by pat_completeness auto
termination
proof -
  have dec: "unat (len - m) < unat len" if "\<not> len \<le> m" and "m \<noteq> 0" for len m :: u16
  proof -
    from that have "unat m < unat len" and "0 < unat m"
      by (simp_all add: word_le_nat_alt unat_gt_0)
    moreover have "unat (len - m) = unat len - unat m"
      using that(1) by (simp add: unat_sub)
    ultimately show ?thesis by simp
  qed
  show ?thesis
    by (relation "measure (\<lambda>(dev, w, addr, data, len, flag, first, bus_busy). unat len)")
       (auto simp: FT260_RD_DATA_MAX_def dec split: if_splits)
qed

definition ft260_i2c_read ::
  "ft260_device \<Rightarrow> world \<Rightarrow> u8 \<Rightarrow> nat \<Rightarrow> u16 \<Rightarrow> u8 \<Rightarrow> int \<times> ft260_device \<times> world" where
  "ft260_i2c_read dev w addr data len flag =
     (let flag0 = (if flag AND FT260_FLAG_START_REPEATED = FT260_FLAG_START_REPEATED
                   then FT260_FLAG_START_REPEATED else FT260_FLAG_START)
      in case ft260_i2c_read_loop dev w addr data len flag0 True 0 of
           (ret, dev', w') \<Rightarrow> (ret, dev'\<lparr>read_buf := None\<rparr>, w'))"

subsection \<open>Combined write then read\<close>

record i2c_msg =
  msg_addr :: u16
  msg_flags :: u16
  msg_len :: u16
  msg_buf :: nat

text \<open>
  \<open>ft260_i2c_write_read\<close>, with \<^verbatim>\<open>msgs[0]\<close> and \<^verbatim>\<open>msgs[1]\<close> as \<open>m0\<close> and
  \<open>m1\<close>. The block under \<^verbatim>\<open>if (ft260_debug)\<close> only reads the write buffer for a
  log line and is left out.
\<close>

definition ft260_i2c_write_read ::
  "ft260_device \<Rightarrow> world \<Rightarrow> i2c_msg \<Rightarrow> i2c_msg \<Rightarrow> (fault \<times> world) + (int \<times> ft260_device \<times> world)" where
  "ft260_i2c_write_read dev w m0 m1 =
     (let wr_len = uint (msg_len m0);
          rd_len = uint (msg_len m1);
          addr = (ucast (msg_addr m0) :: u8)
      in if wr_len > 2 then Inr (- EOPNOTSUPP, dev, w)
         else
           (case ft260_i2c_write dev w addr (msg_buf m0) wr_len FT260_FLAG_START of
              Inl f \<Rightarrow> Inl f
            | Inr (ret, dev1, w1) \<Rightarrow>
                if ret < 0 then Inr (ret, dev1, w1)
                else
                  (case ft260_i2c_read dev1 w1 addr (msg_buf m1) (word_of_int rd_len)
                          FT260_FLAG_START_STOP_REPEATED of
                     (ret', dev2, w2) \<Rightarrow>
                       if ret' < 0 then Inr (ret', dev2, w2) else Inr (0, dev2, w2))))"

subsection \<open>UART transmit\<close>

text \<open>
  The kfifo of \<open>FIFO_SIZE\<close> bytes: \<open>kfifo_in\<close> copies as many of the \<open>n\<close> bytes at
  \<open>buf\<close> as fit and returns their number, \<open>kfifo_out\<close> takes up to \<open>n\<close> bytes from
  the front and returns them, the rest of the queue, and their number.
\<close>

definition kfifo_in :: "u8 list \<Rightarrow> (nat \<Rightarrow> u8) \<Rightarrow> nat \<Rightarrow> nat \<Rightarrow> u8 list \<times> nat" where
  "kfifo_in fifo m buf n =
     (let l = min n (FIFO_SIZE - length fifo) in (fifo @ bytes_at m buf l, l))"

definition kfifo_out :: "u8 list \<Rightarrow> nat \<Rightarrow> u8 list \<times> u8 list \<times> nat" where
  "kfifo_out fifo n = (let l = min n (length fifo) in (take l fifo, drop l fifo, l))"

text \<open>
  The \<^verbatim>\<open>do ... while (data_len > 0)\<close> loop of \<open>ft260_uart_transmit_chars\<close>. The C
  loop does not end when \<^verbatim>\<open>data_len\<close> is positive and the queue is empty, so the
  model is a partial function: \<open>None\<close> stands for a loop that never returns.
\<close>

partial_function (option) ft260_uart_transmit_loop ::
  "ft260_device \<Rightarrow> world \<Rightarrow> int \<Rightarrow> (int \<times> ft260_device \<times> world) option" where
  "ft260_uart_transmit_loop port w data_len =
     (let len = min data_len (int FT260_WR_DATA_MAX);
          wb1 = (write_buf port)(0 := FT260_UART_DATA_REPORT_ID len, 1 := word_of_int len);
          out = kfifo_out (xmit_fifo port) (nat len);
          wb2 = memcpy wb1 2 (fst out);
          len' = int (snd (snd out));
          port1 = port\<lparr>write_buf := wb2, xmit_fifo := fst (snd out)\<rparr>;
          sent = ft260_hid_output_report w (bytes_at wb2 0 (nat (len' + 2)))
      in if fst sent < 0 then Some (fst sent, port1, snd sent)
         else if data_len - len' > 0
         then ft260_uart_transmit_loop
                (port1\<lparr>icount_tx := icount_tx port1 + word_of_int len'\<rparr>) (snd sent)
                (data_len - len')
         else Some (0, port1\<lparr>icount_tx := icount_tx port1 + word_of_int len'\<rparr>, snd sent))"

definition ft260_uart_transmit_chars ::
  "ft260_device \<Rightarrow> world \<Rightarrow> (int \<times> ft260_device \<times> world) option" where
  "ft260_uart_transmit_chars port w =
     (let data_len = int (length (xmit_fifo port))
      in if port_tty port = None \<or> data_len = 0 then Some (- EINVAL, port, w)
         else
           (case ft260_uart_transmit_loop port w data_len of
              None \<Rightarrow> None
            | Some (ret, port1, w1) \<Rightarrow>
                if ret < 0 then Some (ret, port1, w1)
                else
                  (let len = int (length (xmit_fifo port1));
                       w2 = (if int FIFO_SIZE - len > int TTY_WAKEUP_WATERMARK
                             then log_event Tty_wakeup w1 else w1)
                   in Some (0, port1, w2))))"

text \<open>
  \<open>ft260_uart_write\<close>: \<^verbatim>\<open>count\<close> is an \<open>int\<close> that \<^verbatim>\<open>kfifo_in\<close> takes as an
  \<^verbatim>\<open>unsigned int\<close>.
\<close>

definition ft260_uart_write ::
  "ft260_device \<Rightarrow> world \<Rightarrow> nat \<Rightarrow> int \<Rightarrow> (int \<times> ft260_device \<times> world) option" where
  "ft260_uart_write port w buf count =
     (let (fifo1, len) = kfifo_in (xmit_fifo port) (memory w) buf (nat (count mod 2 ^ 32));
          port1 = port\<lparr>xmit_fifo := fifo1\<rparr>
      in case ft260_uart_transmit_chars port1 w of
           None \<Rightarrow> None
         | Some (ret, port2, w2) \<Rightarrow>
             if ret < 0 then Some (0, port2, w2)
             else
               (let ret' = int (length (xmit_fifo port2))
                in if ret' > 0 then Some (int len - ret', port2, w2)
                   else Some (int len, port2, w2)))"

subsection \<open>UART configuration\<close>

text \<open>The \<^verbatim>\<open>c_cflag\<close> bits (asm-generic/termbits.h).\<close>

definition CSIZE :: u32 where "CSIZE = 0x30"
definition CS5 :: u32 where "CS5 = 0x00"
definition CS6 :: u32 where "CS6 = 0x10"
definition CS7 :: u32 where "CS7 = 0x20"
definition CS8 :: u32 where "CS8 = 0x30"
definition CSTOPB :: u32 where "CSTOPB = 0x40"
definition PARENB :: u32 where "PARENB = 0x100"
definition PARODD :: u32 where "PARODD = 0x200"
definition CRTSCTS :: u32 where "CRTSCTS = 0x80000000"

lemmas termbits = CSIZE_def CS5_def CS6_def CS7_def CS8_def CSTOPB_def PARENB_def
  PARODD_def CRTSCTS_def

definition put_unaligned_le32 :: "u32 \<Rightarrow> u8 list" where
  "put_unaligned_le32 v =
     [ucast v, ucast (drop_bit 8 v), ucast (drop_bit 16 v), ucast (drop_bit 24 v)]"

text \<open>
  \<^verbatim>\<open>struct ft260_configure_uart_request\<close> as the bytes handed to
  \<open>ft260_hid_feature_report_set\<close>.
\<close>

definition configure_uart_request ::
  "u8 \<Rightarrow> u32 \<Rightarrow> u8 \<Rightarrow> u8 \<Rightarrow> u8 \<Rightarrow> u8 \<Rightarrow> u8 list" where
  "configure_uart_request flow_ctrl baudrate data_bit parity stop_bit breaking =
     [FT260_SYSTEM_SETTINGS, FT260_SET_UART_CONFIG, flow_ctrl] @ put_unaligned_le32 baudrate @
     [data_bit, parity, stop_bit, breaking]"

text \<open>
  The \<^verbatim>\<open>switch (termios->c_cflag & CSIZE)\<close> of \<open>ft260_uart_change_speed\<close>: the
  data-bit value for the request and the termios it leaves (\<^verbatim>\<open>CS5\<close> and \<^verbatim>\<open>CS6\<close>
  are replaced by \<^verbatim>\<open>CS8\<close>).
\<close>

definition data_bits_switch :: "ktermios \<Rightarrow> u8 \<times> ktermios" where
  "data_bits_switch termios =
     (let cs = c_cflag termios AND CSIZE
      in if cs = CS7 then (FT260_CFG_DATA_BITS_7, termios)
         else if cs = CS5 \<or> cs = CS6
         then (FT260_CFG_DATA_BITS_8,
               termios\<lparr>c_cflag := (c_cflag termios AND NOT CSIZE) OR CS8\<rparr>)
         else (FT260_CFG_DATA_BITS_8, termios))"

text \<open>
  \<open>ft260_uart_change_speed port termios old\<close>, where \<^verbatim>\<open>termios\<close> points to the
  termios of the tty \<open>t\<close>. \<^verbatim>\<open>tty_port_tty_get\<close> returns \<open>port_tty\<close>, and
  \<^verbatim>\<open>tty_encode_baud_rate\<close> writes through that pointer: on NULL the call faults.
  \<open>baud1\<close> is \<^verbatim>\<open>baud\<close> after the range check. The flow-control value computed
  from \<^verbatim>\<open>CRTSCTS\<close> is overwritten with \<^verbatim>\<open>FT260_CFG_FLOW_CTRL_NONE\<close> before the
  request is sent, as in the source.
\<close>

definition ft260_uart_change_speed ::
  "ft260_device \<Rightarrow> world \<Rightarrow> nat \<Rightarrow> (fault \<times> world) + (int \<times> ft260_device \<times> world)" where
  "ft260_uart_change_speed port w t =
     (let (data_bit, termios1) = data_bits_switch (tty_termios w t);
          w1 = w\<lparr>tty_termios := (tty_termios w)(t := termios1)\<rparr>;
          cflag = c_cflag (tty_termios w1 t);
          stop_bit = (if cflag AND CSTOPB \<noteq> 0
                      then FT260_CFG_STOP_TWO_BIT else FT260_CFG_STOP_ONE_BIT);
          parity = (if cflag AND PARENB \<noteq> 0
                    then (if cflag AND PARODD \<noteq> 0 then FT260_CFG_PAR_ODD
                          else FT260_CFG_PAR_EVEN)
                    else FT260_CFG_PAR_NO);
          baud = tty_termios_baud_rate w1 (tty_termios w1 t)
      in case (if baud = 0 \<or> baud < FT260_CFG_BAUD_MIN \<or> baud > FT260_CFG_BAUD_MAX
               then (case port_tty port of
                       None \<Rightarrow> Inl (Null_dereference, w1)
                     | Some tty \<Rightarrow>
                         Inr (9600, w1\<lparr>tty_termios := (tty_termios w1)
                           (tty := tty_encode_baud_rate w1 (tty_termios w1 tty) 9600 9600)\<rparr>))
               else Inr (baud, w1)) of
           Inl f \<Rightarrow> Inl f
         | Inr (baud1, w2) \<Rightarrow>
             (let flow_ctrl = (if c_cflag (tty_termios w2 t) AND CRTSCTS \<noteq> 0
                               then FT260_CFG_FLOW_CTRL_RTS_CTS else FT260_CFG_FLOW_CTRL_OFF);
                  flow_ctrl = FT260_CFG_FLOW_CTRL_NONE;
                  breaking = FT260_CFG_BREAKING_NO;
                  req = configure_uart_request flow_ctrl baud1 data_bit parity stop_bit breaking
              in case ft260_hid_feature_report_set w2 req of
                   (ret, w3) \<Rightarrow> Inr (ret, port, w3)))"

subsection \<open>Keep-alive\<close>

text \<open>
  The timer callback \<open>ft260_uart_start_wakeup\<close>, the work function
  \<open>ft260_uart_do_wakeup\<close>, and the port operations \<open>ft260_uart_shutdown\<close> and
  \<open>ft260_uart_activate\<close>. \<open>ft260_uart_probe_init\<close> is the head of
  \<open>ft260_uart_probe\<close>, up to \<^verbatim>\<open>timer_setup\<close>.
\<close>

definition ft260_uart_start_wakeup :: "ft260_device \<Rightarrow> world \<Rightarrow> ft260_device \<times> world" where
  "ft260_uart_start_wakeup dev w =
     (if reschedule_work dev
      then (dev\<lparr>work_pending := True, timer_pending := True\<rparr>,
            log_event Mod_timer (log_event Schedule_work w))
      else (dev, w))"

definition ft260_uart_do_wakeup :: "ft260_device \<Rightarrow> world \<Rightarrow> ft260_device \<times> world" where
  "ft260_uart_do_wakeup dev w =
     (if reschedule_work dev
      then (dev, snd (ft260_hid_feature_report_get w FT260_CHIP_VERSION 13))
      else (dev, w))"

definition ft260_uart_shutdown :: "ft260_device \<Rightarrow> ft260_device" where
  "ft260_uart_shutdown port = port\<lparr>reschedule_work := False\<rparr>"

definition ft260_uart_activate ::
  "ft260_device \<Rightarrow> world \<Rightarrow> nat \<Rightarrow> (fault \<times> world) + (int \<times> ft260_device \<times> world)" where
  "ft260_uart_activate port w tty =
     (case ft260_uart_change_speed (port\<lparr>xmit_fifo := []\<rparr>) w tty of
        Inl f \<Rightarrow> Inl f
      | Inr (ret, port1, w1) \<Rightarrow>
          if reschedule_work port1
          then Inr (0, port1\<lparr>timer_pending := True\<rparr>, log_event Mod_timer w1)
          else Inr (0, port1, w1))"

definition ft260_uart_probe_init :: "ft260_device \<Rightarrow> ft260_device" where
  "ft260_uart_probe_init dev =
     dev\<lparr>work_pending := False, reschedule_work := False, timer_pending := False\<rparr>"

text \<open>
  The calls that reach the keep-alive state of one port, in any order: the timer
  expires (when armed), the queued job runs (when queued), the tty layer opens the
  line (\<^verbatim>\<open>tty_port_open\<close> sets \<^verbatim>\<open>port.tty\<close> and calls \<open>activate\<close>) or closes it
  (\<open>shutdown\<close>). A call that faults ends the run.
\<close>

datatype uart_call = Timer_expires | Work_runs | Line_open nat | Line_close

fun uart_step :: "uart_call \<Rightarrow> ft260_device \<Rightarrow> world \<Rightarrow> (ft260_device \<times> world) option" where
  "uart_step Timer_expires dev w =
     (if timer_pending dev then Some (ft260_uart_start_wakeup (dev\<lparr>timer_pending := False\<rparr>) w)
      else Some (dev, w))"
| "uart_step Work_runs dev w =
     (if work_pending dev then Some (ft260_uart_do_wakeup (dev\<lparr>work_pending := False\<rparr>) w)
      else Some (dev, w))"
| "uart_step (Line_open tty) dev w =
     (case ft260_uart_activate (dev\<lparr>port_tty := Some tty\<rparr>) w tty of
        Inl f \<Rightarrow> None
      | Inr (ret, dev', w') \<Rightarrow> Some (dev', w'))"
| "uart_step Line_close dev w = Some (ft260_uart_shutdown dev, w)"

fun uart_run :: "uart_call list \<Rightarrow> ft260_device \<Rightarrow> world \<Rightarrow> ft260_device \<times> world" where
  "uart_run [] dev w = (dev, w)"
| "uart_run (c # cs) dev w =
     (case uart_step c dev w of None \<Rightarrow> (dev, w) | Some (dev', w') \<Rightarrow> uart_run cs dev' w')"

subsection \<open>Reading outcomes and the trace\<close>

definition returned :: "(fault \<times> world) + (int \<times> ft260_device \<times> world) \<Rightarrow> int option" where
  "returned r = (case r of Inl x \<Rightarrow> None | Inr x \<Rightarrow> Some (fst x))"

definition final_world :: "(fault \<times> world) + (int \<times> ft260_device \<times> world) \<Rightarrow> world" where
  "final_world r = (case r of Inl x \<Rightarrow> snd x | Inr x \<Rightarrow> snd (snd x))"

fun is_request :: "event \<Rightarrow> bool" where
  "is_request (Get_report i n) = True"
| "is_request (Set_report bs) = True"
| "is_request e = False"

fun output_reports :: "event list \<Rightarrow> u8 list list" where
  "output_reports [] = []"
| "output_reports (Output_report bs # es) = bs # output_reports es"
| "output_reports (e # es) = output_reports es"

fun sleeps :: "event list \<Rightarrow> (int \<times> int) list" where
  "sleeps [] = []"
| "sleeps (Usleep_range lo hi # es) = (lo, hi) # sleeps es"
| "sleeps (e # es) = sleeps es"

text \<open>The number of bytes copied into caller memory.\<close>

fun copied :: "event list \<Rightarrow> nat" where
  "copied [] = 0"
| "copied (Memcpy a bs # es) = length bs + copied es"
| "copied (e # es) = copied es"

text \<open>
  The fields of a read request (\<^verbatim>\<open>struct ft260_i2c_read_request_report\<close>) as sent:
  the flag byte and the 16-bit little-endian length.
\<close>

definition read_req_flag :: "u8 list \<Rightarrow> u8" where
  "read_req_flag r = r ! 2"

definition read_req_len :: "u8 list \<Rightarrow> nat" where
  "read_req_len r = unat (le16_to_cpu (r ! 3) (r ! 4))"

text \<open>
  \<open>requests_only w w'\<close>: from \<open>w\<close> to \<open>w'\<close> the trace grew by feature-report
  requests only, and the memory is the same.
\<close>

definition requests_only :: "world \<Rightarrow> world \<Rightarrow> bool" where
  "requests_only w w' \<longleftrightarrow>
     (\<exists>es. trace w' = trace w @ es \<and> list_all is_request es) \<and> memory w' = memory w"

text \<open>
  \<open>bus_ready w\<close>: in \<open>w\<close> every allocation and every output report succeeds, and
  every feature request returns 5 with a status report that shows neither busy bit nor
  the error bit and a non-zero clock.
\<close>

definition bus_ready :: "world \<Rightarrow> bool" where
  "bus_ready w \<longleftrightarrow>
     (\<forall>k. \<not> alloc_fails w k) \<and> (\<forall>k. 0 \<le> output_ret w k) \<and>
     (\<forall>k. fst (request_ret w k) = 5 \<and>
          snd (request_ret w k) 1 AND FT260_I2C_STATUS_CTRL_BUSY = 0 \<and>
          snd (request_ret w k) 1 AND FT260_I2C_STATUS_BUS_BUSY = 0 \<and>
          snd (request_ret w k) 1 AND FT260_I2C_STATUS_ERROR = 0 \<and>
          le16_to_cpu (snd (request_ret w k) 2) (snd (request_ret w k) 3) \<noteq> 0)"

subsection \<open>An example device and environment\<close>

text \<open>
  \<open>dev0\<close> is a zeroed device structure with a cached clock of 100 kHz. \<open>world0\<close> is an
  environment in which every allocation and every transport call succeeds, the status
  report says that the controller is idle at 100 kHz, byte \<open>a\<close> of the memory holds
  \<open>a mod 256\<close>, the first wait delivers one input report of ID \<open>0xD0\<close> with 60
  bytes and every later wait one with two bytes.
\<close>

definition idle_status :: "nat \<Rightarrow> u8" where
  "idle_status = (\<lambda>i. if i = 0 then 0xC0 else if i = 1 then 0x20 else if i = 2 then 100 else 0)"

definition dev0 :: ft260_device where
  "dev0 = \<lparr>ft260_is_serial = False, port_tty = None, xmit_fifo = [], icount_tx = 0,
           icount_rx = 0, timer_pending = False, work_pending = False,
           reschedule_work = False, wait_done = 0, write_buf = (\<lambda>i. 0),
           need_wakeup_at = 0, read_buf = None, read_idx = 0, read_len = 0, clock = 100\<rparr>"

definition frame0 :: input_report where
  "frame0 = \<lparr>report = 0xD0, length_field = 2, payload = (\<lambda>i. word_of_nat (i + 7))\<rparr>"

definition frame60 :: input_report where
  "frame60 = \<lparr>report = 0xDE, length_field = 60, payload = (\<lambda>i. word_of_nat i)\<rparr>"

definition termios0 :: ktermios where
  "termios0 = \<lparr>c_cflag = 0x30, c_ispeed = 0, c_ospeed = 0\<rparr>"

definition world0 :: world where
  "world0 = \<lparr>trace = [], memory = (\<lambda>a. word_of_nat a), alloc_fails = (\<lambda>k. False),
             n_alloc = 0, output_ret = (\<lambda>k. 0), n_output = 0,
             request_ret = (\<lambda>k. (5, idle_status)), n_request = 0,
             jiffies_at = (\<lambda>k. 0), n_jiffies = 0, wakeup_jiffies = 1200,
             inbound = (\<lambda>k. if k = 0 then [frame60] else [frame0]), n_wait = 0, flip_room = (\<lambda>k. 512), n_flip = 0,
             tty_termios = (\<lambda>t. termios0), tty_termios_baud_rate = c_ospeed,
             tty_encode_baud_rate = (\<lambda>t ib ob. t\<lparr>c_ispeed := ib, c_ospeed := ob\<rparr>)\<rparr>"

text \<open>
  \<open>dev_reading\<close>: a read of two bytes into address 16 is in flight. \<open>frame_big\<close>:
  an input report with a UART report ID whose length byte is 200. \<open>port0\<close>: a UART
  device whose port has the tty 0 attached. \<open>msg3\<close>: a message of three bytes.
  \<open>port_alive\<close>: the port \<open>port0\<close> with its keep-alive running, that is with
  \<^verbatim>\<open>reschedule_work\<close> set, the timer armed and the job queued.
\<close>

definition dev_reading :: ft260_device where
  "dev_reading = dev0\<lparr>read_buf := Some 16, read_idx := 0, read_len := 2\<rparr>"

definition frame_big :: input_report where
  "frame_big = \<lparr>report = 0xF0, length_field = 200, payload = (\<lambda>i. 0)\<rparr>"

definition port0 :: ft260_device where
  "port0 = dev0\<lparr>ft260_is_serial := True, port_tty := Some 0\<rparr>"

definition msg3 :: i2c_msg where
  "msg3 = \<lparr>msg_addr = 0x50, msg_flags = 0, msg_len = 3, msg_buf = 0\<rparr>"

definition port_alive :: ft260_device where
  "port_alive = port0\<lparr>timer_pending := True, work_pending := True, reschedule_work := True\<rparr>"

section \<open>Properties\<close>

subsection \<open>Argument checks\<close>

text \<open>
  C10. A write request of fewer than one byte returns \<open>-EINVAL\<close> at once: no report is
  sent (the environment, with its trace, is the one the call started from) and the
  driver state, with the clock cache, the read descriptor and the staging buffer, is
  unchanged.
\<close>

theorem i2c_write_short_len_rejected:
  "len < 1 \<Longrightarrow> ft260_i2c_write dev w addr data len flag = Inr (- EINVAL, dev, w)"
  by (simp add: ft260_i2c_write_def)

theorem i2c_write_short_len_rejected_witness:
  "(0::int) < 1 \<and>
   ft260_i2c_write dev0 world0 0x50 0 0 FT260_FLAG_START_STOP = Inr (- EINVAL, dev0, world0)"
  using i2c_write_short_len_rejected [of 0 dev0 world0 "0x50" 0 FT260_FLAG_START_STOP] by simp

text \<open>
  C3. A combined write-then-read whose write message has three or more bytes returns
  \<open>-EOPNOTSUPP\<close>; the device and the environment are the ones the call started
  from, so the trace has no new entry: no output report and no feature report was
  issued.
\<close>

theorem write_read_long_write_rejected:
  "3 \<le> uint (msg_len m0) \<Longrightarrow>
   ft260_i2c_write_read dev w m0 m1 = Inr (- EOPNOTSUPP, dev, w)"
  by (simp add: ft260_i2c_write_read_def Let_def)

theorem write_read_long_write_rejected_witness:
  "3 \<le> uint (msg_len msg3) \<and>
   ft260_i2c_write_read dev0 world0 msg3 msg3 = Inr (- EOPNOTSUPP, dev0, world0)"
proof -
  have h: "3 \<le> uint (msg_len msg3)" by (simp add: msg3_def)
  show ?thesis using h write_read_long_write_rejected [OF h] by simp
qed

subsection \<open>Dispatch of inbound reports\<close>

lemma raw_event_no_wrap:
  assumes "\<not> uint (len :: u8) > uint (rl :: u16) - uint (ri :: u16)"
  shows "unat (ri + ucast len) = unat ri + unat len"
proof -
  have "int (unat ri) + int (unat len) \<le> int (unat rl)"
    using assms unfolding uint_nat by linarith
  then have "unat ri + unat len \<le> unat rl" by linarith
  moreover have "unat rl < 2 ^ 16" using unsigned_less [of rl, where 'a = nat] by simp
  ultimately have "unat ri + unat len < 2 ^ 16" by linarith
  moreover have "unat (ucast len :: u16) = unat len"
    by (simp add: unsigned_ucast_eq take_bit_nat_eq_self_iff
          order_less_trans [OF unsigned_less [of len, where 'a = nat]])
  ultimately show ?thesis
    by (simp add: unat_word_ariths)
qed

lemma raw_event_complete_iff:
  assumes "\<not> uint (len :: u8) > uint (rl :: u16) - uint (ri :: u16)"
  shows "ri + ucast len = rl \<longleftrightarrow> unat ri + unat len = unat rl"
  using raw_event_no_wrap [OF assms] by (simp add: word_unat_eq_iff)

lemma raw_event_i2c_frame:
  assumes "FT260_I2C_REPORT_MIN \<le> report x" and "report x \<le> FT260_I2C_REPORT_MAX"
    and "ft260_raw_event dev w x = (ret, dev', w')"
  shows "if read_buf dev = None \<or>
            uint (length_field x) > uint (read_len dev) - uint (read_idx dev)
     then ret = - 1 \<and> dev' = dev \<and> w' = w
     else ret = 0
        \<and> (\<forall>i < unat (length_field x).
              memory w' (the (read_buf dev) + unat (read_idx dev) + i) = payload x i)
        \<and> (\<forall>a. a < the (read_buf dev) + unat (read_idx dev) \<or>
                the (read_buf dev) + unat (read_idx dev) + unat (length_field x) \<le> a
                \<longrightarrow> memory w' a = memory w a)
        \<and> trace w' = trace w @ [Memcpy (the (read_buf dev) + unat (read_idx dev))
                                      (bytes_at (payload x) 0 (unat (length_field x)))]
        \<and> unat (read_idx dev') = unat (read_idx dev) + unat (length_field x)
        \<and> read_buf dev' = read_buf dev \<and> read_len dev' = read_len dev
        \<and> wait_done dev' =
            (if unat (read_idx dev) + unat (length_field x) = unat (read_len dev)
             then Suc (wait_done dev) else wait_done dev)"
  using assms
  by (auto simp: ft260_raw_event_def Let_def memcpy_def bytes_at_def raw_event_no_wrap
       raw_event_complete_iff log_event_def split: option.splits if_splits)

text \<open>
  C4. An input report with a report ID in \<open>0xD0..0xDE\<close> is rejected (return value
  \<open>-1\<close>, device and environment unchanged, so the read descriptor and the destination
  buffer are untouched) when no read is in flight or when its length byte exceeds
  \<open>read_len - read_idx\<close>. Otherwise it returns 0, the payload is in memory at
  \<open>read_buf + read_idx\<close> (one \<open>Memcpy\<close> in the trace) and no other byte of the
  memory changed, \<open>read_idx\<close> has
  advanced by the length without wrapping, and the completion is signalled exactly
  when the bytes received so far equal \<open>read_len\<close>.
\<close>

theorem raw_event_i2c_data:
  assumes "FT260_I2C_REPORT_MIN \<le> report x" and "report x \<le> FT260_I2C_REPORT_MAX"
    and "ft260_raw_event dev w x = (ret, dev', w')"
  shows "if read_buf dev = None \<or>
            uint (length_field x) > uint (read_len dev) - uint (read_idx dev)
     then ret = - 1 \<and> dev' = dev \<and> w' = w
     else ret = 0
        \<and> (\<forall>i < unat (length_field x).
              memory w' (the (read_buf dev) + unat (read_idx dev) + i) = payload x i)
        \<and> (\<forall>a. a < the (read_buf dev) + unat (read_idx dev) \<or>
                the (read_buf dev) + unat (read_idx dev) + unat (length_field x) \<le> a
                \<longrightarrow> memory w' a = memory w a)
        \<and> trace w' = trace w @ [Memcpy (the (read_buf dev) + unat (read_idx dev))
                                      (bytes_at (payload x) 0 (unat (length_field x)))]
        \<and> unat (read_idx dev') = unat (read_idx dev) + unat (length_field x)
        \<and> read_buf dev' = read_buf dev \<and> read_len dev' = read_len dev
        \<and> wait_done dev' =
            (if unat (read_idx dev) + unat (length_field x) = unat (read_len dev)
             then Suc (wait_done dev) else wait_done dev)"
  using assms by (rule raw_event_i2c_frame)

theorem raw_event_i2c_data_witness:
  "FT260_I2C_REPORT_MIN \<le> report frame0 \<and> report frame0 \<le> FT260_I2C_REPORT_MAX \<and>
   fst (ft260_raw_event dev_reading world0 frame0) = 0 \<and>
   memory (snd (snd (ft260_raw_event dev_reading world0 frame0))) 17 = 8 \<and>
   wait_done (fst (snd (ft260_raw_event dev_reading world0 frame0))) = 1"
proof -
  have a: "FT260_I2C_REPORT_MIN \<le> report frame0"
    and b: "report frame0 \<le> FT260_I2C_REPORT_MAX"
    by (simp_all add: frame0_def FT260_I2C_REPORT_MIN_def FT260_I2C_REPORT_MAX_def)
  obtain ret dev' w' where e: "ft260_raw_event dev_reading world0 frame0 = (ret, dev', w')"
    by (cases "ft260_raw_event dev_reading world0 frame0") auto
  have r: "ret = 0 \<and> (\<forall>i<2. memory w' (16 + i) = word_of_nat i + 7) \<and> wait_done dev' = 1"
    using raw_event_i2c_data [OF a b e]
    by (simp add: dev_reading_def dev0_def frame0_def)
  then have "1 < (2::nat) \<longrightarrow> memory w' (16 + 1) = word_of_nat 1 + 7" by blast
  then have "memory w' 17 = 8" by simp
  then show ?thesis using a b e r by simp
qed

text \<open>
  C5. An input report whose length byte exceeds 180 is rejected whatever its report
  ID, and the device and the environment are unchanged: nothing reached the tty (no
  \<open>Flip_insert\<close> in the trace, \<open>icount_rx\<close> as before). With an I2C data ID the
  in-flight check rejects it with \<open>-1\<close>, since \<open>read_len\<close> is at most 180 in every
  state the driver reaches (\<open>i2c_read_read_len\<close>, \<open>raw_event_read_len\<close> and
  \<open>i2c_write_read_len\<close> below); with any other ID the length check rejects it with
  \<open>-EBADR\<close>.
\<close>

theorem raw_event_oversized_rejected:
  assumes "FT260_RD_DATA_MAX < unat (length_field x)"
    and "unat (read_len dev) \<le> FT260_RD_DATA_MAX"
  shows "ft260_raw_event dev w x =
     (if FT260_I2C_REPORT_MIN \<le> report x \<and> report x \<le> FT260_I2C_REPORT_MAX
      then - 1 else - EBADR, dev, w)"
proof -
  have "int (unat (read_len dev)) - int (unat (read_idx dev)) < int (unat (length_field x))"
    using assms by linarith
  then have "uint (length_field x) > uint (read_len dev) - uint (read_idx dev)"
    unfolding uint_nat .
  then show ?thesis
    using assms(1) by (simp add: ft260_raw_event_def split: option.splits)
qed

theorem raw_event_oversized_rejected_witness:
  "FT260_RD_DATA_MAX < unat (length_field frame_big) \<and>
   unat (read_len dev0) \<le> FT260_RD_DATA_MAX \<and>
   ft260_raw_event dev0 world0 frame_big = (- EBADR, dev0, world0)"
proof -
  have a: "FT260_RD_DATA_MAX < unat (length_field frame_big)"
    by (simp add: frame_big_def FT260_RD_DATA_MAX_def)
  have b: "unat (read_len dev0) \<le> FT260_RD_DATA_MAX"
    by (simp add: dev0_def)
  have c: "\<not> report frame_big \<le> FT260_I2C_REPORT_MAX"
    by (simp add: frame_big_def FT260_I2C_REPORT_MAX_def)
  show ?thesis
    using a b c raw_event_oversized_rejected [OF a b, of world0] by simp
qed

subsection \<open>Trace of the transport helpers\<close>

lemma c_div_nonneg: "0 \<le> a \<Longrightarrow> 0 < b \<Longrightarrow> c_div a b = a div b"
  by (simp add: c_div_def sgn_if)

lemma output_reports_append [simp]:
  "output_reports (es @ fs) = output_reports es @ output_reports fs"
  by (induction es rule: output_reports.induct) simp_all

lemma sleeps_append [simp]: "sleeps (es @ fs) = sleeps es @ sleeps fs"
  by (induction es rule: sleeps.induct) simp_all

lemma requests_no_output: "list_all is_request es \<Longrightarrow> output_reports es = []"
  by (induction es rule: output_reports.induct) simp_all

lemma requests_no_sleep: "list_all is_request es \<Longrightarrow> sleeps es = []"
  by (induction es rule: sleeps.induct) simp_all

lemma requests_only_refl [simp]: "requests_only w w"
  by (simp add: requests_only_def)

lemma requests_only_trans:
  "requests_only w w1 \<Longrightarrow> requests_only w1 w2 \<Longrightarrow> requests_only w w2"
  by (auto simp: requests_only_def)

lemma requests_only_counters [simp]:
  "requests_only w (w'\<lparr>n_alloc := a\<rparr>) = requests_only w w'"
  "requests_only w (w'\<lparr>n_request := b\<rparr>) = requests_only w w'"
  "requests_only w (w'\<lparr>n_jiffies := c\<rparr>) = requests_only w w'"
  by (simp_all add: requests_only_def)

lemma feature_report_get_requests:
  "ft260_hid_feature_report_get w i n = (r, w') \<Longrightarrow> requests_only w w'"
  by (auto simp: ft260_hid_feature_report_get_def kmalloc_def log_event_def Let_def
        requests_only_def split: if_splits prod.splits bool.splits)

lemma feature_report_get_ok:
  "ft260_hid_feature_report_get w i n = (Inr buf, w') \<Longrightarrow>
   \<exists>es. trace w' = trace w @ es \<and> list_all is_request es \<and> es \<noteq> []"
  by (auto simp: ft260_hid_feature_report_get_def kmalloc_def log_event_def Let_def
        split: if_splits prod.splits bool.splits)

lemma feature_report_set_requests:
  "ft260_hid_feature_report_set w bs = (r, w') \<Longrightarrow> requests_only w w'"
  by (auto simp: ft260_hid_feature_report_set_def kmalloc_def log_event_def Let_def
        requests_only_def split: if_splits prod.splits bool.splits)

lemma i2c_reset_requests: "requests_only w (snd (ft260_i2c_reset w))"
  using feature_report_set_requests [of w _ "fst (ft260_i2c_reset w)" "snd (ft260_i2c_reset w)"]
  by (simp add: ft260_i2c_reset_def)


lemma xfer_status_requests:
  assumes "ft260_xfer_status dev w b = (ret, dev', w')"
  shows "requests_only w w' \<and> write_buf dev' = write_buf dev \<and>
         (ret = 0 \<longrightarrow> trace w' \<noteq> trace w)"
proof -
  obtain now w0 where j: "read_jiffies w = (now, w0)" by (cases "read_jiffies w") auto
  then have r0: "requests_only w w0" by (auto simp: read_jiffies_def)
  define p where "p = (if need_wakeup_at dev < now then
               (case ft260_hid_feature_report_get w0 FT260_I2C_STATUS 5 of
                  (Inl ret, w') \<Rightarrow> (dev, w')
                | (Inr rep, w') \<Rightarrow>
                    (let (j, w'') = read_jiffies w'
                     in (dev\<lparr>need_wakeup_at := j + wakeup_jiffies w''\<rparr>, w'')))
             else (dev, w0))"
  obtain dev1 w1 where p: "p = (dev1, w1)" by (cases p) auto
  have r1: "requests_only w0 w1 \<and> write_buf dev1 = write_buf dev"
    using p unfolding p_def
    by (auto simp: read_jiffies_def Let_def split: if_splits prod.splits sum.splits
          dest: feature_report_get_requests)
  obtain r w2 where g: "ft260_hid_feature_report_get w1 FT260_I2C_STATUS 5 = (r, w2)"
    by (cases "ft260_hid_feature_report_get w1 FT260_I2C_STATUS 5") auto
  have r2: "requests_only w1 w2" using g by (rule feature_report_get_requests)
  have e: "(ret, dev', w') = (case r of Inl ret \<Rightarrow> (ret, dev1, w2)
         | Inr rep \<Rightarrow>
             (let dev2 = dev1\<lparr>clock := le16_to_cpu (rep 2) (rep 3)\<rparr>;
                  bus_status = rep 1
              in if bus_status AND (FT260_I2C_STATUS_CTRL_BUSY OR b) \<noteq> 0
                 then (- EAGAIN, dev2, w2)
                 else if bus_status AND FT260_I2C_STATUS_ERROR \<noteq> 0
                 then (- EIO, dev2, w2)
                 else (0, dev2, w2)))"
    using assms j p g unfolding ft260_xfer_status_def p_def [symmetric] by (simp add: p_def [symmetric])
  have w': "w' = w2" and wb: "write_buf dev' = write_buf dev1"
    using e by (auto simp: Let_def split: sum.splits if_splits)
  have ro: "requests_only w w'"
    using r0 r1 r2 w' by (blast intro: requests_only_trans)
  have "ret = 0 \<Longrightarrow> trace w' \<noteq> trace w"
  proof -
    assume "ret = 0"
    then obtain buf where "r = Inr buf"
      using e g by (cases r) (auto simp: ft260_hid_feature_report_get_def kmalloc_def Let_def
           EIO_def ENOMEM_def split: prod.splits bool.splits if_splits)
    then obtain es where "trace w2 = trace w1 @ es" "es \<noteq> []"
      using feature_report_get_ok g by blast
    moreover obtain fs where "trace w1 = trace w @ fs"
      using r0 r1 by (auto simp: requests_only_def)
    ultimately show ?thesis using w' by simp
  qed
  then show ?thesis using ro wb r1 by simp
qed


lemma status_retry_requests:
  "status_retry n dev w b = (ret, dev', w') \<Longrightarrow>
   requests_only w w' \<and> write_buf dev' = write_buf dev \<and> (ret = 0 \<longrightarrow> trace w' \<noteq> trace w)"
proof (induction n arbitrary: dev w)
  case 0
  then show ?case using xfer_status_requests [of dev w b ret dev' w'] by simp
next
  case (Suc n)
  obtain r1 dev1 w1 where x: "ft260_xfer_status dev w b = (r1, dev1, w1)"
    by (cases "ft260_xfer_status dev w b") auto
  note x1 = xfer_status_requests [OF x]
  show ?case
  proof (cases "r1 \<noteq> - EAGAIN")
    case True
    then show ?thesis using Suc.prems x x1 by simp
  next
    case False
    then have "status_retry n dev1 w1 b = (ret, dev', w')" using Suc.prems x by simp
    from Suc.IH [OF this] x1 show ?thesis
      by (auto simp: requests_only_def)
  qed
qed

lemma hid_output_report_sent:
  assumes "ft260_hid_output_report w bs = (ret, w1)" and "\<not> ret < 0"
  shows "trace w1 = trace w @ [Output_report bs] \<and> memory w1 = memory w"
  using assms
  by (auto simp: ft260_hid_output_report_def kmalloc_def log_event_def ENOMEM_def
       split: prod.splits bool.splits)

lemma hid_output_report_extends:
  assumes "ft260_hid_output_report w bs = (ret, w1)"
  shows "(trace w1 = trace w \<or> trace w1 = trace w @ [Output_report bs]) \<and> memory w1 = memory w"
  using assms
  by (auto simp: ft260_hid_output_report_def kmalloc_def log_event_def
       split: prod.splits bool.splits)

lemma hid_output_report_ok:
  assumes "\<not> alloc_fails w (n_alloc w)"
  shows "ft260_hid_output_report w bs =
     (output_ret w (n_output w),
      w\<lparr>n_alloc := Suc (n_alloc w), n_output := Suc (n_output w),
        trace := trace w @ [Output_report bs]\<rparr>)"
  using assms by (simp add: ft260_hid_output_report_def kmalloc_def log_event_def)

text \<open>What one call of the status check adds to the trace when the report was sent.\<close>

lemma check_status_sent:
  assumes "\<not> alloc_fails w (n_alloc w)" and "0 \<le> output_ret w (n_output w)"
    and "clock dev \<noteq> 0" and "0 \<le> len"
  shows "\<exists>ret dev' w' es.
     ft260_hid_output_report_check_status dev w data len = Inr (ret, dev', w') \<and>
     trace w' = trace w @ Output_report (bytes_at data 0 (nat len)) #
        (if 2000 < len * 9000 div uint (clock dev)
         then [Usleep_range (len * 9000 div uint (clock dev) - 1500)
                            (len * 9000 div uint (clock dev) - 1400)]
         else []) @ es \<and>
     list_all is_request es \<and> (ret = 0 \<longrightarrow> es \<noteq> []) \<and> \<not> 0 < ret \<and>
     write_buf dev' = write_buf dev"
proof -
  let ?usec = "len * 9000 div uint (clock dev)"
  let ?w1 = "w\<lparr>n_alloc := Suc (n_alloc w), n_output := Suc (n_output w),
        trace := trace w @ [Output_report (bytes_at data 0 (nat len))]\<rparr>"
  let ?w2 = "if 2000 < ?usec then log_event (Usleep_range (?usec - 1500) (?usec - 1500 + 100)) ?w1
             else ?w1"
  let ?bb = "if data rep_flag = FT260_FLAG_START then 0 else FT260_I2C_STATUS_BUS_BUSY"
  have cpos: "0 < uint (clock dev)" using assms(3) by (simp add: word_greater_zero_iff uint_0_iff less_le)
  have cd: "c_div (len * 9000) (uint (clock dev)) = ?usec"
    using assms(4) cpos by (simp add: c_div_nonneg)
  obtain r dev3 w3 where sr: "status_retry 99 dev ?w2 ?bb = (r, dev3, w3)"
    by (cases "status_retry 99 dev ?w2 ?bb") auto
  from status_retry_requests [OF sr]
  obtain es where es: "trace w3 = trace ?w2 @ es" "list_all is_request es"
    and wb: "write_buf dev3 = write_buf dev" and nz: "r = 0 \<longrightarrow> es \<noteq> []"
    by (auto simp: requests_only_def)
  obtain fs where fs: "trace (snd (ft260_i2c_reset w3)) = trace w3 @ fs" "list_all is_request fs"
    using i2c_reset_requests [of w3] by (auto simp: requests_only_def)
  have t2: "trace ?w2 = trace w @ Output_report (bytes_at data 0 (nat len)) #
        (if 2000 < ?usec then [Usleep_range (?usec - 1500) (?usec - 1400)] else [])"
    by (simp add: log_event_def)
  have res: "ft260_hid_output_report_check_status dev w data len =
     (if r = 0 then Inr (0, dev3, w3) else Inr (- EIO, dev3, snd (ft260_i2c_reset w3)))"
    using assms sr unfolding ft260_hid_output_report_check_status_def
    by (simp add: hid_output_report_ok cd Let_def)
  show ?thesis
  proof (cases "r = 0")
    case True
    then show ?thesis using res es wb nz t2 by simp
  next
    case False
    then show ?thesis using res es fs wb t2 by (simp add: EIO_def)
  qed
qed


lemma requests_only_outputs:
  "requests_only w w' \<Longrightarrow> output_reports (trace w') = output_reports (trace w)"
  by (auto simp: requests_only_def requests_no_output)

lemma requests_only_log:
  "requests_only (log_event (Usleep_range a b) w) w' \<Longrightarrow>
   output_reports (trace w') = output_reports (trace w) \<and> memory w' = memory w"
  by (auto simp: requests_only_def log_event_def requests_no_output)

lemma check_status_success:
  assumes "ft260_hid_output_report_check_status dev w data len = Inr (ret, dev', w')"
    and "\<not> ret < 0"
  shows "output_reports (trace w') = output_reports (trace w) @ [bytes_at data 0 (nat len)] \<and>
         memory w' = memory w \<and> write_buf dev' = write_buf dev \<and> ret = 0"
proof -
  obtain r1 w1 where o: "ft260_hid_output_report w (bytes_at data 0 (nat len)) = (r1, w1)"
    by (cases "ft260_hid_output_report w (bytes_at data 0 (nat len))") auto
  have nneg: "\<not> r1 < 0" and c0: "clock dev \<noteq> 0"
    using assms o unfolding ft260_hid_output_report_check_status_def
    by (auto split: if_splits)
  note s1 = hid_output_report_sent [OF o nneg]
  let ?usec = "c_div (len * 9000) (uint (clock dev))"
  let ?w2 = "if 2000 < ?usec then log_event (Usleep_range (?usec - 1500) (?usec - 1500 + 100)) w1
             else w1"
  let ?bb = "if data rep_flag = FT260_FLAG_START then 0 else FT260_I2C_STATUS_BUS_BUSY"
  obtain r dev3 w3 where sr: "status_retry 99 dev ?w2 ?bb = (r, dev3, w3)"
    by (cases "status_retry 99 dev ?w2 ?bb") auto
  have "ft260_hid_output_report_check_status dev w data len =
     (if r = 0 then Inr (0, dev3, w3) else Inr (- EIO, dev3, snd (ft260_i2c_reset w3)))"
    using o nneg c0 sr unfolding ft260_hid_output_report_check_status_def
    by (simp add: Let_def)
  then have r0: "r = 0" and eqs: "ret = 0" "dev' = dev3" "w' = w3"
    using assms by (auto simp: EIO_def split: if_splits)
  from status_retry_requests [OF sr] have ro: "requests_only ?w2 w3"
    and wb: "write_buf dev3 = write_buf dev" by simp_all
  have "output_reports (trace w3) = output_reports (trace w1) \<and> memory w3 = memory w1"
    using ro requests_only_log [of _ _ w1 w3] requests_only_outputs [of w1 w3]
    by (auto simp: requests_only_def split: if_splits)
  then show ?thesis using s1 eqs wb by simp
qed

lemma length_bytes_at [simp]: "length (bytes_at m a n) = n"
  by (simp add: bytes_at_def)

lemma nth_bytes_at [simp]: "i < n \<Longrightarrow> bytes_at m a n ! i = m (a + i)"
  by (simp add: bytes_at_def)

lemma drop_bytes_at: "drop k (bytes_at m a n) = bytes_at m (a + k) (n - k)"
  by (rule nth_equalityI) (simp_all add: add.assoc)

lemma bytes_at_append: "bytes_at m a (n + k) = bytes_at m a n @ bytes_at m (a + n) k"
  by (rule nth_equalityI) (auto simp: nth_append)

lemma bytes_at_memcpy [simp]: "bytes_at (memcpy m dst src) dst (length src) = src"
  by (rule nth_equalityI) (simp_all add: memcpy_def)

lemma memcpy_below [simp]: "a < dst \<Longrightarrow> memcpy m dst src a = m a"
  by (simp add: memcpy_def)


lemma i2c_write_loop_reports:
  assumes "ft260_i2c_write_loop dev w addr data len idx flag = Inr (0, dev', w')"
    and "1 \<le> len" and "0 \<le> idx"
  shows "\<exists>rs. output_reports (trace w') = output_reports (trace w) @ rs
     \<and> int (length rs) = (len + 59) div 60
     \<and> (\<forall>i<length rs. rs ! i ! rep_flag =
           (if i = 0 then write_buf dev rep_flag else 0) OR
           (if Suc i = length rs \<and> flag = FT260_FLAG_START_STOP then FT260_FLAG_STOP else 0))
     \<and> (\<forall>r\<in>set rs. 4 < length r \<and> length r \<le> 64)
     \<and> concat (map (drop rep_data) rs) = bytes_at (memory w) (nat (int data + idx)) (nat len)
     \<and> memory w' = memory w"
  using assms
proof (induction "nat len" arbitrary: dev w len idx rule: less_induct)
  case less
  define wr_len where "wr_len = (if len \<le> 60 then len else 60)"
  define src where "src = bytes_at (memory w) (nat (int data + idx)) (nat wr_len)"
  define wb1 where "wb1 = (if len \<le> 60 \<and> flag = FT260_FLAG_START_STOP
       then (write_buf dev)(rep_flag := write_buf dev rep_flag OR FT260_FLAG_STOP)
       else write_buf dev)"
  define wb3 where "wb3 = memcpy (wb1(rep_report := FT260_I2C_DATA_REPORT_ID wr_len,
       rep_address := addr, rep_length := word_of_int wr_len)) rep_data src"
  define r0 where "r0 = bytes_at wb3 0 (nat (wr_len + 4))"
  define cs where "cs = ft260_hid_output_report_check_status (dev\<lparr>write_buf := wb3\<rparr>) w wb3 (wr_len + 4)"
  have wl: "1 \<le> wr_len" "wr_len \<le> 60" using less.prems(2) by (auto simp: wr_len_def)
  have unf: "ft260_i2c_write_loop dev w addr data len idx flag =
     (case cs of Inl f \<Rightarrow> Inl f
      | Inr (ret, dev2, w2) \<Rightarrow>
          if ret < 0 then Inr (ret, dev2, w2)
          else if len - wr_len > 0
          then ft260_i2c_write_loop (dev2\<lparr>write_buf := (write_buf dev2)(rep_flag := 0)\<rparr>) w2
                 addr data (len - wr_len) (idx + wr_len) flag
          else Inr (0, dev2\<lparr>write_buf := (write_buf dev2)(rep_flag := 0)\<rparr>, w2))"
    by (subst ft260_i2c_write_loop.simps)
       (simp add: Let_def cs_def wb3_def wb1_def src_def wr_len_def FT260_WR_DATA_MAX_def
          split: sum.split prod.split)
  obtain ret dev2 w2 where cs: "cs = Inr (ret, dev2, w2)" and nneg: "\<not> ret < 0"
    using less.prems(1) unfolding unf by (cases cs) (auto split: if_splits)
  from check_status_success [OF cs [unfolded cs_def] nneg]
  have out: "output_reports (trace w2) = output_reports (trace w) @ [r0]"
    and mem: "memory w2 = memory w" and wbeq: "write_buf dev2 = wb3"
    by (simp_all add: r0_def)
  have r0_len: "4 < length r0 \<and> length r0 \<le> 64" using wl by (simp add: r0_def) linarith
  have r0_flag: "r0 ! rep_flag = wb1 rep_flag"
    using wl by (simp add: r0_def wb3_def rep_offsets) (simp add: numeral_2_eq_2)
  have "drop rep_data r0 = bytes_at wb3 rep_data (length src)"
    using wl by (simp add: r0_def drop_bytes_at src_def rep_offsets nat_add_distrib)
  then have r0_data: "drop rep_data r0 = src" by (simp add: wb3_def)
  show ?case
  proof (cases "len \<le> 60")
    case True
    then have fin: "w' = w2" using less.prems(1) cs nneg unfolding unf by (simp add: wr_len_def)
    have n1: "(len + 59) div 60 = 1" using True less.prems(2) by simp
    have "output_reports (trace w') = output_reports (trace w) @ [r0]
       \<and> int (length [r0]) = (len + 59) div 60
       \<and> (\<forall>i<length [r0]. [r0] ! i ! rep_flag =
           (if i = 0 then write_buf dev rep_flag else 0) OR
           (if Suc i = length [r0] \<and> flag = FT260_FLAG_START_STOP then FT260_FLAG_STOP else 0))
       \<and> (\<forall>r\<in>set [r0]. 4 < length r \<and> length r \<le> 64)
       \<and> concat (map (drop rep_data) [r0]) = bytes_at (memory w) (nat (int data + idx)) (nat len)
       \<and> memory w' = memory w"
      using True fin out mem n1 r0_len r0_flag r0_data wl
      by (simp add: wb1_def src_def wr_len_def)
    then show ?thesis by blast
  next
    case False
    then have w60: "wr_len = 60" by (simp add: wr_len_def)
    let ?dev3 = "dev2\<lparr>write_buf := (write_buf dev2)(rep_flag := 0)\<rparr>"
    have rec: "ft260_i2c_write_loop ?dev3 w2 addr data (len - 60) (idx + 60) flag = Inr (0, dev', w')"
      using less.prems(1) cs nneg False unfolding unf by (simp add: w60)
    have "nat (len - 60) < nat len" using False by simp
    from less.hyps [OF this rec] False less.prems(3)
    obtain rs where rs: "output_reports (trace w') = output_reports (trace w2) @ rs"
      "int (length rs) = (len - 60 + 59) div 60"
      "\<forall>i<length rs. rs ! i ! rep_flag =
           (if i = 0 then write_buf ?dev3 rep_flag else 0) OR
           (if Suc i = length rs \<and> flag = FT260_FLAG_START_STOP then FT260_FLAG_STOP else 0)"
      "\<forall>r\<in>set rs. 4 < length r \<and> length r \<le> 64"
      "concat (map (drop rep_data) rs) = bytes_at (memory w2) (nat (int data + (idx + 60))) (nat (len - 60))"
      "memory w' = memory w2"
      by auto
    have n: "(len + 59) div 60 = 1 + (len - 60 + 59) div 60" by simp
    have pos: "0 < length rs" using rs(2) False by (cases rs) auto
    have flags: "(r0 # rs) ! i ! rep_flag =
           (if i = 0 then write_buf dev rep_flag else 0) OR
           (if Suc i = length (r0 # rs) \<and> flag = FT260_FLAG_START_STOP then FT260_FLAG_STOP else 0)"
      if "i < length (r0 # rs)" for i
    proof (cases i)
      case 0
      then show ?thesis using pos r0_flag False by (simp add: wb1_def)
    next
      case (Suc j)
      then show ?thesis using that rs(3) by simp
    qed
    have split: "bytes_at (memory w) (nat (int data + idx)) (nat len) =
        src @ bytes_at (memory w) (nat (int data + (idx + 60))) (nat (len - 60))"
    proof -
      have "nat len = 60 + nat (len - 60)" using False by simp
      moreover have "nat (int data + (idx + 60)) = nat (int data + idx) + 60"
        using less.prems(3) by simp
      ultimately show ?thesis
        by (simp add: src_def w60 bytes_at_append)
    qed
    have "output_reports (trace w') = output_reports (trace w) @ (r0 # rs)
       \<and> int (length (r0 # rs)) = (len + 59) div 60
       \<and> (\<forall>i<length (r0 # rs). (r0 # rs) ! i ! rep_flag =
           (if i = 0 then write_buf dev rep_flag else 0) OR
           (if Suc i = length (r0 # rs) \<and> flag = FT260_FLAG_START_STOP then FT260_FLAG_STOP else 0))
       \<and> (\<forall>r\<in>set (r0 # rs). 4 < length r \<and> length r \<le> 64)
       \<and> concat (map (drop rep_data) (r0 # rs)) = bytes_at (memory w) (nat (int data + idx)) (nat len)
       \<and> memory w' = memory w"
      using rs(1,2,4,5,6) out mem n flags r0_len r0_data split w60
      by simp
    then show ?thesis by blast
  qed
qed

subsection \<open>Chunked write\<close>

text \<open>In a ready environment, with a non-zero cached clock, a write returns 0.\<close>

lemma bus_ready_counters [simp]:
  "bus_ready (w\<lparr>n_alloc := a\<rparr>) = bus_ready w"
  "bus_ready (w\<lparr>n_request := b\<rparr>) = bus_ready w"
  "bus_ready (w\<lparr>n_jiffies := c\<rparr>) = bus_ready w"
  "bus_ready (w\<lparr>n_output := d\<rparr>) = bus_ready w"
  "bus_ready (w\<lparr>trace := t\<rparr>) = bus_ready w"
  "bus_ready (log_event e w) = bus_ready w"
  by (simp_all add: bus_ready_def log_event_def)

lemma feature_report_get_ready:
  assumes "bus_ready w"
  shows "\<exists>w'. ft260_hid_feature_report_get w i 5 = (Inr (snd (request_ret w (n_request w))), w')
     \<and> bus_ready w'"
proof -
  have "\<not> alloc_fails w (n_alloc w)" "fst (request_ret w (n_request w)) = 5"
    using assms by (simp_all add: bus_ready_def)
  then show ?thesis using assms
    by (simp add: ft260_hid_feature_report_get_def kmalloc_def Let_def split_beta)
qed

lemma feature_report_set_ready:
  assumes "bus_ready w"
  shows "bus_ready (snd (ft260_hid_feature_report_set w bs))"
  using assms
  by (simp add: ft260_hid_feature_report_set_def kmalloc_def Let_def split: bool.splits)

lemma busy_mask:
  assumes "(x :: u8) AND FT260_I2C_STATUS_CTRL_BUSY = 0" and "x AND FT260_I2C_STATUS_BUS_BUSY = 0"
    and "b = 0 \<or> b = FT260_I2C_STATUS_BUS_BUSY"
  shows "x AND (FT260_I2C_STATUS_CTRL_BUSY OR b) = 0"
  using assms by (auto simp: bit.conj_disj_distrib)

lemma xfer_status_ready:
  assumes "bus_ready w" and "b = 0 \<or> b = FT260_I2C_STATUS_BUS_BUSY"
  shows "\<exists>dev' w'. ft260_xfer_status dev w b = (0, dev', w') \<and> bus_ready w' \<and>
           clock dev' \<noteq> 0 \<and> write_buf dev' = write_buf dev"
proof -
  obtain now w0 where j: "read_jiffies w = (now, w0)" by (cases "read_jiffies w") auto
  then have r0: "bus_ready w0" using assms(1) by (auto simp: read_jiffies_def)
  define p where "p = (if need_wakeup_at dev < now then
               (case ft260_hid_feature_report_get w0 FT260_I2C_STATUS 5 of
                  (Inl ret, w') \<Rightarrow> (dev, w')
                | (Inr rep, w') \<Rightarrow>
                    (let (j, w'') = read_jiffies w'
                     in (dev\<lparr>need_wakeup_at := j + wakeup_jiffies w''\<rparr>, w'')))
             else (dev, w0))"
  obtain dev1 w1 where p: "p = (dev1, w1)" by (cases p) auto
  have r1: "bus_ready w1 \<and> write_buf dev1 = write_buf dev"
    using p feature_report_get_ready [OF r0, of FT260_I2C_STATUS] r0 unfolding p_def
    by (auto simp: read_jiffies_def Let_def split: if_splits)
  from feature_report_get_ready [OF conjunct1 [OF r1], of FT260_I2C_STATUS]
  obtain w2 where g: "ft260_hid_feature_report_get w1 FT260_I2C_STATUS 5 =
      (Inr (snd (request_ret w1 (n_request w1))), w2)" and r2: "bus_ready w2" by blast
  let ?rep = "snd (request_ret w1 (n_request w1))"
  have st: "?rep 1 AND FT260_I2C_STATUS_CTRL_BUSY = 0" "?rep 1 AND FT260_I2C_STATUS_BUS_BUSY = 0"
    "?rep 1 AND FT260_I2C_STATUS_ERROR = 0" "le16_to_cpu (?rep 2) (?rep 3) \<noteq> 0"
    using r1 by (simp_all add: bus_ready_def)
  have "ft260_xfer_status dev w b = (0, dev1\<lparr>clock := le16_to_cpu (?rep 2) (?rep 3)\<rparr>, w2)"
    using j p g st(3) busy_mask [OF st(1,2) assms(2)]
    unfolding ft260_xfer_status_def p_def [symmetric]
    by (simp add: p_def [symmetric] Let_def)
  then show ?thesis using r2 st(4) r1 by simp
qed

lemma check_status_ready:
  assumes "bus_ready w" and "clock dev \<noteq> 0"
  shows "\<exists>dev' w'. ft260_hid_output_report_check_status dev w data len = Inr (0, dev', w') \<and>
           bus_ready w' \<and> clock dev' \<noteq> 0"
proof -
  have a: "\<not> alloc_fails w (n_alloc w)" and o: "\<not> output_ret w (n_output w) < 0"
    using assms(1) by (simp_all add: bus_ready_def not_less)
  let ?w1 = "w\<lparr>n_alloc := Suc (n_alloc w), n_output := Suc (n_output w),
        trace := trace w @ [Output_report (bytes_at data 0 (nat len))]\<rparr>"
  let ?usec = "c_div (len * 9000) (uint (clock dev))"
  let ?w2 = "if 2000 < ?usec then log_event (Usleep_range (?usec - 1500) (?usec - 1500 + 100)) ?w1
             else ?w1"
  let ?bb = "if data rep_flag = FT260_FLAG_START then 0 else FT260_I2C_STATUS_BUS_BUSY"
  have r2: "bus_ready ?w2" using assms(1) by simp
  have bb: "?bb = 0 \<or> ?bb = FT260_I2C_STATUS_BUS_BUSY" by simp
  from xfer_status_ready [OF r2 bb, of dev]
  obtain dev' w' where x: "ft260_xfer_status dev ?w2 ?bb = (0, dev', w')"
    and r: "bus_ready w'" "clock dev' \<noteq> 0" by blast
  have "status_retry 99 dev ?w2 ?bb = (0, dev', w')"
    using x by (simp add: eval_nat_numeral EAGAIN_def)
  then have "ft260_hid_output_report_check_status dev w data len = Inr (0, dev', w')"
    using a o assms(2) unfolding ft260_hid_output_report_check_status_def
    by (simp add: hid_output_report_ok Let_def)
  then show ?thesis using r by blast
qed

lemma i2c_write_loop_succeeds:
  assumes "bus_ready w" and "clock dev \<noteq> 0"
  shows "\<exists>dev' w'. ft260_i2c_write_loop dev w addr data len idx flag = Inr (0, dev', w')"
  using assms
proof (induction "nat len" arbitrary: dev w len idx rule: less_induct)
  case less
  define wr_len where "wr_len = (if len \<le> 60 then len else 60)"
  define src where "src = bytes_at (memory w) (nat (int data + idx)) (nat wr_len)"
  define wb1 where "wb1 = (if len \<le> 60 \<and> flag = FT260_FLAG_START_STOP
       then (write_buf dev)(rep_flag := write_buf dev rep_flag OR FT260_FLAG_STOP)
       else write_buf dev)"
  define wb3 where "wb3 = memcpy (wb1(rep_report := FT260_I2C_DATA_REPORT_ID wr_len,
       rep_address := addr, rep_length := word_of_int wr_len)) rep_data src"
  define cs where "cs = ft260_hid_output_report_check_status (dev\<lparr>write_buf := wb3\<rparr>) w wb3 (wr_len + 4)"
  have unf: "ft260_i2c_write_loop dev w addr data len idx flag =
     (case cs of Inl f \<Rightarrow> Inl f
      | Inr (ret, dev2, w2) \<Rightarrow>
          if ret < 0 then Inr (ret, dev2, w2)
          else if len - wr_len > 0
          then ft260_i2c_write_loop (dev2\<lparr>write_buf := (write_buf dev2)(rep_flag := 0)\<rparr>) w2
                 addr data (len - wr_len) (idx + wr_len) flag
          else Inr (0, dev2\<lparr>write_buf := (write_buf dev2)(rep_flag := 0)\<rparr>, w2))"
    by (subst ft260_i2c_write_loop.simps)
       (simp add: Let_def cs_def wb3_def wb1_def src_def wr_len_def FT260_WR_DATA_MAX_def
          split: sum.split prod.split)
  from check_status_ready [OF less.prems(1), of "dev\<lparr>write_buf := wb3\<rparr>" wb3 "wr_len + 4"]
  obtain dev2 w2 where cs: "cs = Inr (0, dev2, w2)" and r: "bus_ready w2" "clock dev2 \<noteq> 0"
    using less.prems(2) unfolding cs_def by auto
  show ?case
  proof (cases "len - wr_len > 0")
    case True
    then have "nat (len - wr_len) < nat len" by (auto simp: wr_len_def split: if_splits)
    from less.hyps [OF this r(1), of "dev2\<lparr>write_buf := (write_buf dev2)(rep_flag := 0)\<rparr>" "idx + wr_len"]
    show ?thesis using True cs r(2) unfolding unf by simp
  next
    case False
    then show ?thesis using cs unfolding unf by simp
  qed
qed

lemma i2c_write_succeeds:
  assumes "bus_ready w" and "clock dev \<noteq> 0" and "1 \<le> len"
  shows "\<exists>dev' w'. ft260_i2c_write dev w addr data len flag = Inr (0, dev', w')"
  using i2c_write_loop_succeeds
    [OF assms(1), of "dev\<lparr>write_buf := (write_buf dev)(rep_flag := FT260_FLAG_START)\<rparr>" addr data len 0 flag]
    assms(2,3)
  by (simp add: ft260_i2c_write_def)

text \<open>
  C1. A write of \<open>len \<ge> 1\<close> bytes with the start+stop flag that returns 0 has sent
  exactly \<open>\<lceil>len / 60\<rceil>\<close> output reports \<open>rs\<close>: the flag byte of the first
  contains the start condition, the flag byte of the last contains the stop condition,
  every report between them carries \<open>FT260_FLAG_NONE\<close>, and the data fields of the
  reports, concatenated, are the \<open>len\<close> bytes at \<open>data\<close>. (A write that fails stops
  at the failing chunk and returns a negative value; by \<open>i2c_write_succeeds\<close> a write
  returns 0 whenever the environment is ready.)
\<close>

theorem i2c_write_chunks:
  assumes "1 \<le> len"
    and "ft260_i2c_write dev w addr data len FT260_FLAG_START_STOP = Inr (0, dev', w')"
  shows "\<exists>rs. output_reports (trace w') = output_reports (trace w) @ rs
     \<and> int (length rs) = (len + 59) div 60
     \<and> (hd rs ! rep_flag) AND FT260_FLAG_START = FT260_FLAG_START
     \<and> (last rs ! rep_flag) AND FT260_FLAG_STOP = FT260_FLAG_STOP
     \<and> (\<forall>i. 0 < i \<and> Suc i < length rs \<longrightarrow> rs ! i ! rep_flag = FT260_FLAG_NONE)
     \<and> concat (map (drop rep_data) rs) = bytes_at (memory w) data (nat len)"
proof -
  let ?dev = "dev\<lparr>write_buf := (write_buf dev)(rep_flag := FT260_FLAG_START)\<rparr>"
  have "ft260_i2c_write_loop ?dev w addr data len 0 FT260_FLAG_START_STOP = Inr (0, dev', w')"
    using assms by (simp add: ft260_i2c_write_def)
  from i2c_write_loop_reports [OF this assms(1)]
  obtain rs where rs: "output_reports (trace w') = output_reports (trace w) @ rs"
    "int (length rs) = (len + 59) div 60"
    "\<forall>i<length rs. rs ! i ! rep_flag =
           (if i = 0 then FT260_FLAG_START else 0) OR
           (if Suc i = length rs then FT260_FLAG_STOP else 0)"
    "concat (map (drop rep_data) rs) = bytes_at (memory w) data (nat len)"
    by auto
  have pos: "0 < length rs" using rs(2) assms(1) by (cases rs) auto
  then have ne: "rs \<noteq> []" by simp
  have "hd rs ! rep_flag = FT260_FLAG_START OR (if Suc 0 = length rs then FT260_FLAG_STOP else 0)"
    using rs(3) pos by (simp add: hd_conv_nth ne)
  then have first: "(hd rs ! rep_flag) AND FT260_FLAG_START = FT260_FLAG_START"
    by (simp add: FT260_FLAG_START_def FT260_FLAG_STOP_def)
  have "last rs ! rep_flag = (if length rs - 1 = 0 then FT260_FLAG_START else 0) OR FT260_FLAG_STOP"
    using rs(3) pos by (simp add: last_conv_nth ne)
  then have lst: "(last rs ! rep_flag) AND FT260_FLAG_STOP = FT260_FLAG_STOP"
    by (simp add: FT260_FLAG_START_def FT260_FLAG_STOP_def)
  have mid: "\<forall>i. 0 < i \<and> Suc i < length rs \<longrightarrow> rs ! i ! rep_flag = FT260_FLAG_NONE"
    using rs(3) by (simp add: FT260_FLAG_NONE_def)
  show ?thesis using rs(1,2,4) first lst mid by blast
qed

theorem i2c_write_chunks_witness:
  "(1::int) \<le> 61 \<and>
   returned (ft260_i2c_write dev0 world0 0x50 0 61 FT260_FLAG_START_STOP) = Some 0 \<and>
   int (length (output_reports
     (trace (final_world (ft260_i2c_write dev0 world0 0x50 0 61 FT260_FLAG_START_STOP))))) =
   (61 + 59) div 60"
proof -
  have r: "returned (ft260_i2c_write dev0 world0 0x50 0 61 FT260_FLAG_START_STOP) = Some 0"
    by code_simp
  then obtain dev' w' where
    e: "ft260_i2c_write dev0 world0 0x50 0 61 FT260_FLAG_START_STOP = Inr (0, dev', w')"
    by (cases "ft260_i2c_write dev0 world0 0x50 0 61 FT260_FLAG_START_STOP")
       (auto simp: returned_def)
  have h: "(1::int) \<le> 61" by simp
  from i2c_write_chunks [OF h e]
  obtain rs where "output_reports (trace w') = output_reports (trace world0) @ rs"
    and "int (length rs) = (61 + 59) div 60" by blast
  then have "int (length (output_reports (trace w'))) = (61 + 59) div 60"
    by (simp add: world0_def)
  then show ?thesis using r e by (simp add: final_world_def)
qed

subsection \<open>Waiting for the bus after a chunk\<close>

lemma check_status_extends:
  "\<exists>es. trace (final_world (ft260_hid_output_report_check_status dev w data len)) = trace w @ es"
proof -
  obtain r1 w1 where o: "ft260_hid_output_report w (bytes_at data 0 (nat len)) = (r1, w1)"
    by (cases "ft260_hid_output_report w (bytes_at data 0 (nat len))") auto
  from hid_output_report_extends [OF o] obtain e1 where e1: "trace w1 = trace w @ e1" by auto
  let ?usec = "c_div (len * 9000) (uint (clock dev))"
  let ?w2 = "if 2000 < ?usec then log_event (Usleep_range (?usec - 1500) (?usec - 1500 + 100)) w1
             else w1"
  let ?bb = "if data rep_flag = FT260_FLAG_START then 0 else FT260_I2C_STATUS_BUS_BUSY"
  obtain r dev3 w3 where sr: "status_retry 99 dev ?w2 ?bb = (r, dev3, w3)"
    by (cases "status_retry 99 dev ?w2 ?bb") auto
  have e2: "\<exists>es. trace ?w2 = trace w1 @ es" by (simp add: log_event_def)
  from status_retry_requests [OF sr] have e3: "\<exists>es. trace w3 = trace ?w2 @ es"
    by (auto simp: requests_only_def)
  have e4: "\<exists>es. trace (snd (ft260_i2c_reset w')) = trace w' @ es" for w'
    using i2c_reset_requests [of w'] by (auto simp: requests_only_def)
  have e13: "\<exists>es. trace w3 = trace w @ es"
    using e1 e2 e3 by (metis append.assoc)
  have e14: "\<exists>es. trace (snd (ft260_i2c_reset w1)) = trace w @ es"
    using e1 e4 [of w1] by (metis append.assoc)
  have e34: "\<exists>es. trace (snd (ft260_i2c_reset w3)) = trace w @ es"
    using e13 e4 [of w3] by (metis append.assoc)
  show ?thesis
    using o sr e1 e13 e14 e34 unfolding ft260_hid_output_report_check_status_def
    by (simp add: final_world_def Let_def)
qed

lemma i2c_write_loop_extends:
  "\<exists>es. trace (final_world (ft260_i2c_write_loop dev w addr data len idx flag)) = trace w @ es"
proof (induction "nat len" arbitrary: dev w len idx rule: less_induct)
  case less
  define wr_len where "wr_len = (if len \<le> 60 then len else 60)"
  define src where "src = bytes_at (memory w) (nat (int data + idx)) (nat wr_len)"
  define wb1 where "wb1 = (if len \<le> 60 \<and> flag = FT260_FLAG_START_STOP
       then (write_buf dev)(rep_flag := write_buf dev rep_flag OR FT260_FLAG_STOP)
       else write_buf dev)"
  define wb3 where "wb3 = memcpy (wb1(rep_report := FT260_I2C_DATA_REPORT_ID wr_len,
       rep_address := addr, rep_length := word_of_int wr_len)) rep_data src"
  define cs where "cs = ft260_hid_output_report_check_status (dev\<lparr>write_buf := wb3\<rparr>) w wb3 (wr_len + 4)"
  have unf: "ft260_i2c_write_loop dev w addr data len idx flag =
     (case cs of Inl f \<Rightarrow> Inl f
      | Inr (ret, dev2, w2) \<Rightarrow>
          if ret < 0 then Inr (ret, dev2, w2)
          else if len - wr_len > 0
          then ft260_i2c_write_loop (dev2\<lparr>write_buf := (write_buf dev2)(rep_flag := 0)\<rparr>) w2
                 addr data (len - wr_len) (idx + wr_len) flag
          else Inr (0, dev2\<lparr>write_buf := (write_buf dev2)(rep_flag := 0)\<rparr>, w2))"
    by (subst ft260_i2c_write_loop.simps)
       (simp add: Let_def cs_def wb3_def wb1_def src_def wr_len_def FT260_WR_DATA_MAX_def
          split: sum.split prod.split)
  from check_status_extends [of "dev\<lparr>write_buf := wb3\<rparr>" w wb3 "wr_len + 4"]
  obtain es where es: "trace (final_world cs) = trace w @ es" unfolding cs_def by blast
  show ?case
  proof (cases cs)
    case (Inl f)
    then show ?thesis using es unfolding unf by simp
  next
    case (Inr x)
    obtain ret dev2 w2 where x: "x = (ret, dev2, w2)" by (cases x) auto
    have w2: "trace w2 = trace w @ es" using es Inr x by (simp add: final_world_def)
    show ?thesis
    proof (cases "\<not> ret < 0 \<and> len - wr_len > 0")
      case True
      then have "nat (len - wr_len) < nat len" by (auto simp: wr_len_def split: if_splits)
      from less [OF this, of "dev2\<lparr>write_buf := (write_buf dev2)(rep_flag := 0)\<rparr>" w2 "idx + wr_len"]
      show ?thesis using True Inr x w2 unfolding unf by auto
    next
      case False
      then show ?thesis using Inr x w2 unfolding unf by (auto simp: final_world_def)
    qed
  qed
qed


lemma requests_first_no_sleep: "list_all is_request es \<Longrightarrow> sleeps (take 1 (es @ fs)) = [] \<or> es = []"
  by (cases es) (auto elim: is_request.elims)

text \<open>
  C6, as the code has it. Every iteration of the write loop (every chunk) is a call of
  \<open>ft260_i2c_write_loop\<close>. When the chunk of \<open>p = min len 60\<close> payload bytes is sent
  (the allocation and the transport call succeed) with a non-zero cached clock, the
  expected time is \<open>(p + 4) * 9000 div clock\<close>: the report length passed to
  \<open>ft260_hid_output_report_check_status\<close> counts the four header bytes. The entry
  after the report in the trace is \<open>usleep_range (expected - 1500) (expected - 1400)\<close>
  exactly when the expected time exceeds 2000, and what follows (the status poll) does not
  begin with a sleep.
\<close>

theorem i2c_write_chunk_sleep:
  assumes "1 \<le> len" and "clock dev \<noteq> 0"
    and "\<not> alloc_fails w (n_alloc w)" and "0 \<le> output_ret w (n_output w)"
  shows "\<exists>r rest.
     trace (final_world (ft260_i2c_write_loop dev w addr data len idx flag)) =
       trace w @ Output_report r #
       (if 2000 < (min len 60 + 4) * 9000 div uint (clock dev)
        then [Usleep_range ((min len 60 + 4) * 9000 div uint (clock dev) - 1500)
                           ((min len 60 + 4) * 9000 div uint (clock dev) - 1400)]
        else []) @ rest
     \<and> int (length r) = min len 60 + 4 \<and> sleeps (take 1 rest) = []"
proof -
  define wr_len where "wr_len = (if len \<le> 60 then len else 60)"
  define src where "src = bytes_at (memory w) (nat (int data + idx)) (nat wr_len)"
  define wb1 where "wb1 = (if len \<le> 60 \<and> flag = FT260_FLAG_START_STOP
       then (write_buf dev)(rep_flag := write_buf dev rep_flag OR FT260_FLAG_STOP)
       else write_buf dev)"
  define wb3 where "wb3 = memcpy (wb1(rep_report := FT260_I2C_DATA_REPORT_ID wr_len,
       rep_address := addr, rep_length := word_of_int wr_len)) rep_data src"
  define cs where "cs = ft260_hid_output_report_check_status (dev\<lparr>write_buf := wb3\<rparr>) w wb3 (wr_len + 4)"
  define usec where "usec = (wr_len + 4) * 9000 div uint (clock dev)"
  define slp where "slp = (if 2000 < usec then [Usleep_range (usec - 1500) (usec - 1400)] else [])"
  define r0 where "r0 = bytes_at wb3 0 (nat (wr_len + 4))"
  have wl: "wr_len = min len 60" "1 \<le> wr_len" using assms(1) by (auto simp: wr_len_def)
  have unf: "ft260_i2c_write_loop dev w addr data len idx flag =
     (case cs of Inl f \<Rightarrow> Inl f
      | Inr (ret, dev2, w2) \<Rightarrow>
          if ret < 0 then Inr (ret, dev2, w2)
          else if len - wr_len > 0
          then ft260_i2c_write_loop (dev2\<lparr>write_buf := (write_buf dev2)(rep_flag := 0)\<rparr>) w2
                 addr data (len - wr_len) (idx + wr_len) flag
          else Inr (0, dev2\<lparr>write_buf := (write_buf dev2)(rep_flag := 0)\<rparr>, w2))"
    by (subst ft260_i2c_write_loop.simps)
       (simp add: Let_def cs_def wb3_def wb1_def src_def wr_len_def FT260_WR_DATA_MAX_def
          split: sum.split prod.split)
  have "0 \<le> wr_len + 4" using wl by simp
  from check_status_sent [of w "dev\<lparr>write_buf := wb3\<rparr>" "wr_len + 4" wb3, OF assms(3,4) _ this]
  obtain ret dev2 w2 es where cs: "cs = Inr (ret, dev2, w2)"
    and t2: "trace w2 = trace w @ Output_report r0 # slp @ es"
    and es: "list_all is_request es" "ret = 0 \<longrightarrow> es \<noteq> []" "\<not> 0 < ret"
    using assms(2) unfolding cs_def usec_def slp_def r0_def by auto
  have r0: "int (length r0) = min len 60 + 4" using wl by (simp add: r0_def)
  have goal: "\<exists>rest. trace (final_world (ft260_i2c_write_loop dev w addr data len idx flag)) =
       trace w @ Output_report r0 # slp @ rest \<and> sleeps (take 1 rest) = []"
  proof (cases "\<not> ret < 0 \<and> len - wr_len > 0")
    case True
    then have r: "ret = 0" using es(3) by simp
    then have ne: "es \<noteq> []" using es(2) by simp
    obtain fs where fs: "trace (final_world (ft260_i2c_write_loop
         (dev2\<lparr>write_buf := (write_buf dev2)(rep_flag := 0)\<rparr>) w2 addr data (len - wr_len)
         (idx + wr_len) flag)) = trace w2 @ fs"
      using i2c_write_loop_extends by blast
    have "sleeps (take 1 (es @ fs)) = []"
      using requests_first_no_sleep [OF es(1), of fs] ne by simp
    then show ?thesis using True cs fs t2 unfolding unf by auto
  next
    case False
    have "sleeps (take 1 es) = []"
      using requests_first_no_sleep [OF es(1), of "[]"] by auto
    then show ?thesis using False cs t2 unfolding unf by (auto simp: final_world_def)
  qed
  then show ?thesis using r0 unfolding slp_def usec_def wl(1) by blast
qed

theorem i2c_write_chunk_sleep_witness:
  "(1::int) \<le> 20 \<and> clock dev0 \<noteq> 0 \<and> \<not> alloc_fails world0 (n_alloc world0) \<and>
   0 \<le> output_ret world0 (n_output world0) \<and>
   take 1 (sleeps (trace (final_world
     (ft260_i2c_write_loop dev0 world0 0x50 0 20 0 FT260_FLAG_START_STOP)))) = [(660, 760)]"
proof -
  have h1: "(1::int) \<le> 20" by simp
  have h2: "clock dev0 \<noteq> 0" by (simp add: dev0_def)
  have h3: "\<not> alloc_fails world0 (n_alloc world0)" by (simp add: world0_def)
  have h4: "0 \<le> output_ret world0 (n_output world0)" by (simp add: world0_def)
  from i2c_write_chunk_sleep [OF h1 h2 h3 h4, of "0x50" 0 0 FT260_FLAG_START_STOP]
  obtain r rest where
    "trace (final_world (ft260_i2c_write_loop dev0 world0 0x50 0 20 0 FT260_FLAG_START_STOP)) =
       trace world0 @ Output_report r #
       (if 2000 < (min 20 60 + 4) * 9000 div uint (clock dev0)
        then [Usleep_range ((min 20 60 + 4) * 9000 div uint (clock dev0) - 1500)
                           ((min 20 60 + 4) * 9000 div uint (clock dev0) - 1400)]
        else []) @ rest"
    by blast
  then have "take 1 (sleeps (trace (final_world
     (ft260_i2c_write_loop dev0 world0 0x50 0 20 0 FT260_FLAG_START_STOP)))) = [(660, 760)]"
    by (simp add: dev0_def world0_def)
  then show ?thesis using h2 h3 h4 by simp
qed

text \<open>
  C6 as the claim states it (\<open>p * 9000 div clock\<close> with \<open>p\<close> the payload bytes) fails:
  a write of 20 bytes at 100 kHz gives \<open>20 * 9000 div 100 = 1800\<close>, which does not
  exceed 2000, yet the driver sleeps, for \<open>24 * 9000 div 100 - 1500 = 660\<close> microseconds.
\<close>

theorem write_sleep_counterexample:
  "returned (ft260_i2c_write dev0 world0 0x50 0 20 FT260_FLAG_START_STOP) = Some 0 \<and>
   uint (clock dev0) = 100 \<and>
   \<not> 2000 < (20 * 9000) div (100 :: int) \<and>
   sleeps (trace (final_world (ft260_i2c_write dev0 world0 0x50 0 20 FT260_FLAG_START_STOP))) =
     [(660, 760)]"
  by code_simp

subsection \<open>Chunked read\<close>

lemma copied_append [simp]: "copied (es @ fs) = copied es + copied fs"
  by (induction es rule: copied.induct) simp_all

lemma requests_no_copy: "list_all is_request es \<Longrightarrow> copied es = 0"
  by (induction es rule: copied.induct) simp_all

lemma le16_roundtrip: "le16_to_cpu (ucast w) (ucast (drop_bit 8 w)) = (w :: u16)"
  by (rule bit_word_eqI) (auto simp: le16_to_cpu_def bit_simps)

lemma uart_receive_chars_frame:
  assumes "ft260_uart_receive_chars dev w d n = (r, dev', w')"
  shows "(\<exists>es. trace w' = trace w @ es \<and> output_reports es = [] \<and> copied es = 0) \<and>
         read_buf dev' = read_buf dev \<and> read_len dev' = read_len dev \<and>
         read_idx dev' = read_idx dev \<and> wait_done dev' = wait_done dev \<and>
         memory w' = memory w"
  using assms
  by (auto simp: ft260_uart_receive_chars_def Let_def log_event_def split: if_splits)

lemma raw_event_step:
  assumes "ft260_raw_event dev w x = (r, dev', w')"
    and "unat (read_idx dev) \<le> unat (read_len dev)"
  shows "\<exists>es. trace w' = trace w @ es \<and> output_reports es = [] \<and>
     read_buf dev' = read_buf dev \<and> read_len dev' = read_len dev \<and>
     wait_done dev \<le> wait_done dev' \<and>
     unat (read_idx dev') = unat (read_idx dev) + copied es \<and>
     unat (read_idx dev') \<le> unat (read_len dev) \<and>
     (wait_done dev < wait_done dev' \<longrightarrow> read_idx dev' = read_len dev) \<and>
     (\<forall>a. (\<forall>b. read_buf dev = Some b \<longrightarrow> a < b \<or> b + unat (read_len dev) \<le> a) \<longrightarrow>
          memory w' a = memory w a)"
proof (cases "FT260_I2C_REPORT_MIN \<le> report x \<and> report x \<le> FT260_I2C_REPORT_MAX")
  case True
  note c4 = raw_event_i2c_frame [OF conjunct1 [OF True] conjunct2 [OF True] assms(1)]
  show ?thesis
  proof (cases "read_buf dev = None \<or>
            uint (length_field x) > uint (read_len dev) - uint (read_idx dev)")
    case True
    then show ?thesis using c4 assms(2) by simp
  next
    case False
    then have "int (unat (read_idx dev)) + int (unat (length_field x)) \<le> int (unat (read_len dev))"
      unfolding uint_nat by linarith
    then have le: "unat (read_idx dev) + unat (length_field x) \<le> unat (read_len dev)"
      by linarith
    from False c4 have f: "trace w' = trace w @ [Memcpy (the (read_buf dev) + unat (read_idx dev))
                                      (bytes_at (payload x) 0 (unat (length_field x)))]"
      "unat (read_idx dev') = unat (read_idx dev) + unat (length_field x)"
      "read_buf dev' = read_buf dev" "read_len dev' = read_len dev"
      "wait_done dev' =
            (if unat (read_idx dev) + unat (length_field x) = unat (read_len dev)
             then Suc (wait_done dev) else wait_done dev)"
      "\<forall>a. a < the (read_buf dev) + unat (read_idx dev) \<or>
                the (read_buf dev) + unat (read_idx dev) + unat (length_field x) \<le> a
                \<longrightarrow> memory w' a = memory w a"
      by simp_all
    have "wait_done dev < wait_done dev' \<longrightarrow> read_idx dev' = read_len dev"
      using f(2,5) by (auto simp: word_unat_eq_iff split: if_splits)
    moreover have "memory w' a = memory w a"
      if "\<forall>b. read_buf dev = Some b \<longrightarrow> a < b \<or> b + unat (read_len dev) \<le> a" for a
    proof -
      obtain b where b: "read_buf dev = Some b" using False by auto
      with that have "a < b \<or> b + unat (read_len dev) \<le> a" by simp
      then have "a < b + unat (read_idx dev) \<or>
                 b + unat (read_idx dev) + unat (length_field x) \<le> a"
        using le by linarith
      then show ?thesis using f(6) b by auto
    qed
    ultimately show ?thesis using f(1-5) le by simp
  qed
next
  case False
  then have "ft260_raw_event dev w x =
     (if unat (length_field x) > FT260_RD_DATA_MAX then (- EBADR, dev, w)
      else if report x \<ge> FT260_UART_REPORT_MIN \<and> report x \<le> FT260_UART_REPORT_MAX then
        ft260_uart_receive_chars dev w (payload x) (length_field x)
      else (0, dev, w))"
    by (auto simp: ft260_raw_event_def)
  then show ?thesis
    using assms uart_receive_chars_frame [of dev w "payload x" "length_field x" r dev' w']
    by (auto split: if_splits)
qed

lemma deliver_progress:
  assumes "deliver dev w xs = (dev', w')"
    and "unat (read_idx dev) \<le> unat (read_len dev)"
  shows "\<exists>es. trace w' = trace w @ es \<and> output_reports es = [] \<and>
     read_buf dev' = read_buf dev \<and> read_len dev' = read_len dev \<and>
     wait_done dev \<le> wait_done dev' \<and>
     unat (read_idx dev') = unat (read_idx dev) + copied es \<and>
     unat (read_idx dev') \<le> unat (read_len dev) \<and>
     (wait_done dev < wait_done dev' \<longrightarrow> read_idx dev' = read_len dev) \<and>
     (\<forall>a. (\<forall>b. read_buf dev = Some b \<longrightarrow> a < b \<or> b + unat (read_len dev) \<le> a) \<longrightarrow>
          memory w' a = memory w a)"
  using assms
proof (induction xs arbitrary: dev w)
  case Nil
  then show ?case by simp
next
  case (Cons x xs)
  obtain r dev1 w1 where x: "ft260_raw_event dev w x = (r, dev1, w1)"
    by (cases "ft260_raw_event dev w x") auto
  from raw_event_step [OF x Cons.prems(2)]
  obtain es where es: "trace w1 = trace w @ es" "output_reports es = []"
     "read_buf dev1 = read_buf dev" "read_len dev1 = read_len dev"
     "wait_done dev \<le> wait_done dev1"
     "unat (read_idx dev1) = unat (read_idx dev) + copied es"
     "unat (read_idx dev1) \<le> unat (read_len dev)"
     "wait_done dev < wait_done dev1 \<longrightarrow> read_idx dev1 = read_len dev"
     "\<forall>a. (\<forall>b. read_buf dev = Some b \<longrightarrow> a < b \<or> b + unat (read_len dev) \<le> a) \<longrightarrow>
          memory w1 a = memory w a"
    by blast
  have d: "deliver dev1 w1 xs = (dev', w')" using Cons.prems(1) x by simp
  have le1: "unat (read_idx dev1) \<le> unat (read_len dev1)" using es(4,7) by simp
  from Cons.IH [OF d le1]
  obtain fs where fs: "trace w' = trace w1 @ fs" "output_reports fs = []"
     "read_buf dev' = read_buf dev1" "read_len dev' = read_len dev1"
     "wait_done dev1 \<le> wait_done dev'"
     "unat (read_idx dev') = unat (read_idx dev1) + copied fs"
     "unat (read_idx dev') \<le> unat (read_len dev1)"
     "wait_done dev1 < wait_done dev' \<longrightarrow> read_idx dev' = read_len dev1"
     "\<forall>a. (\<forall>b. read_buf dev1 = Some b \<longrightarrow> a < b \<or> b + unat (read_len dev1) \<le> a) \<longrightarrow>
          memory w' a = memory w1 a"
    by blast
  have done_eq: "wait_done dev < wait_done dev' \<longrightarrow> read_idx dev' = read_len dev"
  proof
    assume lt: "wait_done dev < wait_done dev'"
    show "read_idx dev' = read_len dev"
    proof (cases "wait_done dev < wait_done dev1")
      case True
      then have "unat (read_idx dev1) = unat (read_len dev)" using es(8) by simp
      then have "unat (read_idx dev') = unat (read_len dev)" using fs(6,7) es(4) by simp
      then show ?thesis by (simp add: word_unat_eq_iff)
    next
      case False
      then have "wait_done dev1 < wait_done dev'" using lt by simp
      then show ?thesis using fs(8) es(4) by simp
    qed
  qed
  have mem_eq: "\<forall>a. (\<forall>b. read_buf dev = Some b \<longrightarrow> a < b \<or> b + unat (read_len dev) \<le> a) \<longrightarrow>
          memory w' a = memory w a"
    using es(3,4,9) fs(9) by simp
  have "trace w' = trace w @ (es @ fs) \<and> output_reports (es @ fs) = [] \<and>
     read_buf dev' = read_buf dev \<and> read_len dev' = read_len dev \<and>
     wait_done dev \<le> wait_done dev' \<and>
     unat (read_idx dev') = unat (read_idx dev) + copied (es @ fs) \<and>
     unat (read_idx dev') \<le> unat (read_len dev) \<and>
     (wait_done dev < wait_done dev' \<longrightarrow> read_idx dev' = read_len dev) \<and>
     (\<forall>a. (\<forall>b. read_buf dev = Some b \<longrightarrow> a < b \<or> b + unat (read_len dev) \<le> a) \<longrightarrow>
          memory w' a = memory w a)"
    using es(1-8) fs(1-8) done_eq mem_eq by simp
  then show ?case by blast
qed

lemma wait_for_completion_done:
  assumes "wait_for_completion_timeout dev w = (True, dev', w')"
    and "read_idx dev = 0" and "wait_done dev = 0"
  shows "\<exists>es. trace w' = trace w @ es \<and> output_reports es = [] \<and>
     copied es = unat (read_len dev) \<and> read_len dev' = read_len dev \<and>
     (\<forall>a. (\<forall>b. read_buf dev = Some b \<longrightarrow> a < b \<or> b + unat (read_len dev) \<le> a) \<longrightarrow>
          memory w' a = memory w a)"
proof -
  obtain dev1 w1 where d: "deliver dev (w\<lparr>n_wait := Suc (n_wait w)\<rparr>) (inbound w (n_wait w)) = (dev1, w1)"
    by (cases "deliver dev (w\<lparr>n_wait := Suc (n_wait w)\<rparr>) (inbound w (n_wait w))") auto
  have le: "unat (read_idx dev) \<le> unat (read_len dev)" using assms(2) by simp
  from deliver_progress [OF d le] assms(2,3)
  obtain es where es: "trace w1 = trace w @ es" "output_reports es = []"
     "read_len dev1 = read_len dev" "unat (read_idx dev1) = copied es"
     "0 < wait_done dev1 \<longrightarrow> read_idx dev1 = read_len dev"
     "\<forall>a. (\<forall>b. read_buf dev = Some b \<longrightarrow> a < b \<or> b + unat (read_len dev) \<le> a) \<longrightarrow>
          memory w1 a = memory w a"
    by auto
  have "0 < wait_done dev1" and "w' = w1" and "read_len dev' = read_len dev1"
    using assms(1) d by (auto simp: wait_for_completion_timeout_def split: if_splits)
  then show ?thesis using es by auto
qed


lemma feature_report_get_Inl_neg:
  "ft260_hid_feature_report_get w i n = (Inl r, w') \<Longrightarrow> r < 0"
  by (auto simp: ft260_hid_feature_report_get_def kmalloc_def Let_def ENOMEM_def EIO_def
        split: prod.splits bool.splits if_splits)

lemma xfer_status_nonpos:
  assumes "ft260_xfer_status dev w b = (ret, dev', w')"
  shows "ret \<le> 0 \<and> read_len dev' = read_len dev \<and> read_buf dev' = read_buf dev"
  using assms
  by (auto simp: ft260_xfer_status_def read_jiffies_def Let_def EAGAIN_def EIO_def
        split: prod.splits sum.splits if_splits dest: feature_report_get_Inl_neg)

lemma i2c_read_loop_requests:
  assumes "ft260_i2c_read_loop dev w addr data len flag first bus_busy = (ret, dev', w')"
    and "\<not> ret < 0" and "len \<noteq> 0"
  shows "\<exists>es. trace w' = trace w @ es
     \<and> output_reports es \<noteq> []
     \<and> (\<forall>i<length (output_reports es). read_req_flag (output_reports es ! i) =
           (if i = 0 then flag else 0) OR
           (if Suc i = length (output_reports es) then FT260_FLAG_STOP else 0))
     \<and> read_req_len (hd (output_reports es)) \<le> (if first then 60 else 180)
     \<and> (\<forall>r\<in>set (tl (output_reports es)). read_req_len r \<le> 180)
     \<and> sum_list (map read_req_len (output_reports es)) = unat len
     \<and> copied es = unat len
     \<and> ret = 0
     \<and> (\<forall>a. a < data \<or> data + unat len \<le> a \<longrightarrow> memory w' a = memory w a)"
  using assms
proof (induction "unat len" arbitrary: dev w data len flag first bus_busy rule: less_induct)
  case less
  define m :: u16 where "m = (if first then 60 else word_of_nat FT260_RD_DATA_MAX)"
  define rd_len where "rd_len = (if len \<le> m then len else m)"
  define flag1 where "flag1 = (if len \<le> m then flag OR FT260_FLAG_STOP else flag)"
  define rep where "rep = [FT260_I2C_READ_REQ, addr, flag1, ucast rd_len, ucast (drop_bit 8 rd_len)]"
  define dev1 where "dev1 = dev\<lparr>wait_done := 0, read_idx := 0, read_buf := Some data, read_len := rd_len\<rparr>"
  define bb1 where "bb1 = (if flag1 AND FT260_FLAG_STOP \<noteq> 0 then FT260_I2C_STATUS_BUS_BUSY else bus_busy)"
  obtain r1 w1 where o: "ft260_hid_output_report w rep = (r1, w1)"
    by (cases "ft260_hid_output_report w rep") auto
  obtain ok dev2 w2 where wt: "wait_for_completion_timeout dev1 w1 = (ok, dev2, w2)"
    by (cases "wait_for_completion_timeout dev1 w1") auto
  obtain r' dev4 w3 where xs: "ft260_xfer_status (dev2\<lparr>read_buf := None\<rparr>) w2 bb1 = (r', dev4, w3)"
    by (cases "ft260_xfer_status (dev2\<lparr>read_buf := None\<rparr>) w2 bb1") auto
  have unf: "ft260_i2c_read_loop dev w addr data len flag first bus_busy =
     (if r1 < 0 then (r1, dev1, w1)
      else if \<not> ok then (- ETIMEDOUT, dev2, snd (ft260_i2c_reset w2))
      else if r' < 0 then (- EIO, dev4, snd (ft260_i2c_reset w3))
      else if len - rd_len > 0
      then ft260_i2c_read_loop dev4 w3 addr (data + unat rd_len) (len - rd_len) 0 False bb1
      else (r', dev4, w3))"
    using o wt xs
    by (subst ft260_i2c_read_loop.simps)
       (simp add: Let_def m_def [symmetric] rd_len_def [symmetric] flag1_def [symmetric]
          rep_def [symmetric] dev1_def [symmetric] bb1_def [symmetric])
  have c1: "\<not> r1 < 0" and c2: "ok" and c3: "\<not> r' < 0"
    using less.prems(1,2) unfolding unf by (auto simp: ETIMEDOUT_def EIO_def split: if_splits)
  have m: "unat m = (if first then 60 else 180)" by (simp add: m_def FT260_RD_DATA_MAX_def)
  have t1: "trace w1 = trace w @ [Output_report rep]" and m1: "memory w1 = memory w"
    using hid_output_report_sent [OF o c1] by simp_all
  from wait_for_completion_done [OF wt [unfolded c2 [THEN eqTrueI]]]
  obtain es_w where ew: "trace w2 = trace w1 @ es_w" "output_reports es_w = []"
    "copied es_w = unat rd_len"
    and m2: "\<forall>a. a < data \<or> data + unat rd_len \<le> a \<longrightarrow> memory w2 a = memory w1 a"
    by (auto simp: dev1_def)
  from xfer_status_requests [OF xs]
  obtain es_x where ex: "trace w3 = trace w2 @ es_x" "list_all is_request es_x"
    and m3: "memory w3 = memory w2"
    by (auto simp: requests_only_def)
  have m13: "\<forall>a. a < data \<or> data + unat rd_len \<le> a \<longrightarrow> memory w3 a = memory w a"
    using m1 m2 m3 by simp
  have r'0: "r' = 0" using xfer_status_nonpos [OF xs] c3 by simp
  have t3: "trace w3 = trace w @ (Output_report rep # es_w @ es_x)"
    using t1 ew(1) ex(1) by simp
  have o3: "output_reports (Output_report rep # es_w @ es_x) = [rep]"
    using ew(2) ex(2) by (simp add: requests_no_output)
  have cp3: "copied (Output_report rep # es_w @ es_x) = unat rd_len"
    using ew(3) ex(2) by (simp add: requests_no_copy)
  have rf: "read_req_flag rep = flag1" by (simp add: rep_def read_req_flag_def)
  have rl: "read_req_len rep = unat rd_len"
    by (simp add: rep_def read_req_len_def le16_roundtrip)
  show ?case
  proof (cases "len \<le> m")
    case True
    then have rd: "rd_len = len" by (simp add: rd_len_def)
    then have fin: "ret = r'" "w' = w3" using less.prems(1) c1 c2 c3 unfolding unf by simp_all
    have "unat len \<le> unat m" using True by (simp add: word_le_nat_alt)
    then have "trace w' = trace w @ (Output_report rep # es_w @ es_x)
     \<and> output_reports (Output_report rep # es_w @ es_x) \<noteq> []
     \<and> (\<forall>i<length (output_reports (Output_report rep # es_w @ es_x)).
           read_req_flag (output_reports (Output_report rep # es_w @ es_x) ! i) =
           (if i = 0 then flag else 0) OR
           (if Suc i = length (output_reports (Output_report rep # es_w @ es_x))
            then FT260_FLAG_STOP else 0))
     \<and> read_req_len (hd (output_reports (Output_report rep # es_w @ es_x))) \<le> (if first then 60 else 180)
     \<and> (\<forall>r\<in>set (tl (output_reports (Output_report rep # es_w @ es_x))). read_req_len r \<le> 180)
     \<and> sum_list (map read_req_len (output_reports (Output_report rep # es_w @ es_x))) = unat len
     \<and> copied (Output_report rep # es_w @ es_x) = unat len
     \<and> ret = 0
     \<and> (\<forall>a. a < data \<or> data + unat len \<le> a \<longrightarrow> memory w' a = memory w a)"
      unfolding o3 cp3 using fin t3 r'0 rf rl rd True m m13 by (simp add: flag1_def)
    then show ?thesis by blast
  next
    case False
    then have rd: "rd_len = m" by (simp add: rd_len_def)
    have lt: "unat m < unat len" using False by (simp add: word_le_nat_alt)
    have sub: "unat (len - m) = unat len - unat m" using False by (simp add: unat_sub)
    have m0: "0 < unat m" using m by simp
    have pos: "0 < len - m" using False by (auto simp: word_greater_zero_iff)
    have rec: "ft260_i2c_read_loop dev4 w3 addr (data + unat m) (len - m) 0 False bb1 = (ret, dev', w')"
      using less.prems(1) c1 c2 c3 pos unfolding unf rd by simp
    have dec: "unat (len - m) < unat len" using lt sub m0 by simp
    have ne: "len - m \<noteq> 0" using pos by auto
    from less.hyps [OF dec rec less.prems(2) ne]
    obtain fs where fs: "trace w' = trace w3 @ fs"
      "output_reports fs \<noteq> []"
      "\<forall>i<length (output_reports fs). read_req_flag (output_reports fs ! i) =
           (if i = 0 then 0 else 0) OR
           (if Suc i = length (output_reports fs) then FT260_FLAG_STOP else 0)"
      "read_req_len (hd (output_reports fs)) \<le> 180"
      "\<forall>r\<in>set (tl (output_reports fs)). read_req_len r \<le> 180"
      "sum_list (map read_req_len (output_reports fs)) = unat (len - m)"
      "copied fs = unat (len - m)" "ret = 0"
      "\<forall>a. a < data + unat m \<or> data + unat m + unat (len - m) \<le> a \<longrightarrow>
           memory w' a = memory w3 a"
      by auto
    have mem: "memory w' a = memory w a" if "a < data \<or> data + unat len \<le> a" for a
    proof -
      from that have "a < data + unat m \<or> data + unat m + unat (len - m) \<le> a"
        using lt sub by linarith
      then have "memory w' a = memory w3 a" using fs(9) by blast
      moreover from that have "a < data \<or> data + unat m \<le> a"
        using lt by linarith
      then have "a < data \<or> data + unat rd_len \<le> a"
        using rd by simp
      then have "memory w3 a = memory w a" using m13 by blast
      ultimately show ?thesis by simp
    qed
    let ?es = "(Output_report rep # es_w @ es_x) @ fs"
    have oe: "output_reports ?es = rep # output_reports fs"
      using o3 by (simp del: output_reports.simps append.simps add: output_reports_append)
    have ce: "copied ?es = unat rd_len + copied fs"
      using cp3 by (simp del: copied.simps append.simps)
    have all180: "\<forall>r\<in>set (output_reports fs). read_req_len r \<le> 180"
      using fs(2,4,5) by (cases "output_reports fs") auto
    have flags: "read_req_flag ((rep # output_reports fs) ! i) =
           (if i = 0 then flag else 0) OR
           (if Suc i = length (rep # output_reports fs) then FT260_FLAG_STOP else 0)"
      if "i < length (rep # output_reports fs)" for i
    proof (cases i)
      case 0
      then show ?thesis using fs(2) rf False by (simp add: flag1_def)
    next
      case (Suc j)
      then show ?thesis using that fs(3) by simp
    qed
    have "trace w' = trace w @ ?es
     \<and> output_reports ?es \<noteq> []
     \<and> (\<forall>i<length (output_reports ?es). read_req_flag (output_reports ?es ! i) =
           (if i = 0 then flag else 0) OR
           (if Suc i = length (output_reports ?es) then FT260_FLAG_STOP else 0))
     \<and> read_req_len (hd (output_reports ?es)) \<le> (if first then 60 else 180)
     \<and> (\<forall>r\<in>set (tl (output_reports ?es)). read_req_len r \<le> 180)
     \<and> sum_list (map read_req_len (output_reports ?es)) = unat len
     \<and> copied ?es = unat len
     \<and> ret = 0
     \<and> (\<forall>a. a < data \<or> data + unat len \<le> a \<longrightarrow> memory w' a = memory w a)"
      unfolding oe ce using fs(1,6,7,8) t3 flags all180 rl rd m lt sub mem by simp
    then show ?thesis by blast
  qed
qed



text \<open>
  \<open>read_len\<close> never exceeds \<open>FT260_RD_DATA_MAX\<close>: it is 0 in a zeroed device, a read
  leaves it at most 180 on every path, and the dispatch of input reports and the write
  path do not change it.
\<close>

lemma raw_event_read_len:
  "ft260_raw_event dev w x = (r, dev', w') \<Longrightarrow> read_len dev' = read_len dev"
  by (auto simp: ft260_raw_event_def ft260_uart_receive_chars_def Let_def
        split: if_splits option.splits)

lemma deliver_read_len:
  "deliver dev w xs = (dev', w') \<Longrightarrow> read_len dev' = read_len dev"
proof (induction xs arbitrary: dev w)
  case Nil
  then show ?case by simp
next
  case (Cons x xs)
  obtain r dev1 w1 where x: "ft260_raw_event dev w x = (r, dev1, w1)"
    by (cases "ft260_raw_event dev w x") auto
  then have "deliver dev1 w1 xs = (dev', w')" using Cons.prems by simp
  from Cons.IH [OF this] raw_event_read_len [OF x] show ?case by simp
qed

lemma wait_read_len:
  "wait_for_completion_timeout dev w = (ok, dev', w') \<Longrightarrow> read_len dev' = read_len dev"
  by (auto simp: wait_for_completion_timeout_def split: prod.splits if_splits
        dest: deliver_read_len)

lemma i2c_read_loop_read_len:
  "ft260_i2c_read_loop dev w addr data len flag first bus_busy = (ret, dev', w') \<Longrightarrow>
   unat (read_len dev') \<le> FT260_RD_DATA_MAX"
proof (induction "unat len" arbitrary: dev w data len flag first bus_busy rule: less_induct)
  case less
  define m :: u16 where "m = (if first then 60 else word_of_nat FT260_RD_DATA_MAX)"
  define rd_len where "rd_len = (if len \<le> m then len else m)"
  define flag1 where "flag1 = (if len \<le> m then flag OR FT260_FLAG_STOP else flag)"
  define rep where "rep = [FT260_I2C_READ_REQ, addr, flag1, ucast rd_len, ucast (drop_bit 8 rd_len)]"
  define dev1 where "dev1 = dev\<lparr>wait_done := 0, read_idx := 0, read_buf := Some data, read_len := rd_len\<rparr>"
  define bb1 where "bb1 = (if flag1 AND FT260_FLAG_STOP \<noteq> 0 then FT260_I2C_STATUS_BUS_BUSY else bus_busy)"
  obtain r1 w1 where o: "ft260_hid_output_report w rep = (r1, w1)"
    by (cases "ft260_hid_output_report w rep") auto
  obtain ok dev2 w2 where wt: "wait_for_completion_timeout dev1 w1 = (ok, dev2, w2)"
    by (cases "wait_for_completion_timeout dev1 w1") auto
  obtain r' dev4 w3 where xs: "ft260_xfer_status (dev2\<lparr>read_buf := None\<rparr>) w2 bb1 = (r', dev4, w3)"
    by (cases "ft260_xfer_status (dev2\<lparr>read_buf := None\<rparr>) w2 bb1") auto
  have unf: "ft260_i2c_read_loop dev w addr data len flag first bus_busy =
     (if r1 < 0 then (r1, dev1, w1)
      else if \<not> ok then (- ETIMEDOUT, dev2, snd (ft260_i2c_reset w2))
      else if r' < 0 then (- EIO, dev4, snd (ft260_i2c_reset w3))
      else if len - rd_len > 0
      then ft260_i2c_read_loop dev4 w3 addr (data + unat rd_len) (len - rd_len) 0 False bb1
      else (r', dev4, w3))"
    using o wt xs
    by (subst ft260_i2c_read_loop.simps)
       (simp add: Let_def m_def [symmetric] rd_len_def [symmetric] flag1_def [symmetric]
          rep_def [symmetric] dev1_def [symmetric] bb1_def [symmetric])
  have "unat m \<le> 180" by (simp add: m_def FT260_RD_DATA_MAX_def)
  moreover have "unat rd_len \<le> unat m" by (simp add: rd_len_def word_le_nat_alt)
  ultimately have b1: "unat (read_len dev1) \<le> FT260_RD_DATA_MAX"
    by (simp add: dev1_def FT260_RD_DATA_MAX_def)
  have b2: "unat (read_len dev2) \<le> FT260_RD_DATA_MAX" using wait_read_len [OF wt] b1 by simp
  have b4: "unat (read_len dev4) \<le> FT260_RD_DATA_MAX" using xfer_status_nonpos [OF xs] b2 by simp
  show ?case
  proof (cases "\<not> r1 < 0 \<and> ok \<and> \<not> r' < 0 \<and> len - rd_len > 0")
    case True
    then have ne: "\<not> len \<le> m" by (auto simp: rd_len_def)
    then have rd: "rd_len = m" by (simp add: rd_len_def)
    have "unat m < unat len" using ne by (simp add: word_le_nat_alt)
    moreover have "unat (len - m) = unat len - unat m" using ne by (simp add: unat_sub)
    moreover have "0 < unat m" by (simp add: m_def FT260_RD_DATA_MAX_def)
    ultimately have dec: "unat (len - rd_len) < unat len" using rd by simp
    have "ft260_i2c_read_loop dev4 w3 addr (data + unat rd_len) (len - rd_len) 0 False bb1 = (ret, dev', w')"
      using less.prems True unfolding unf by simp
    from less.hyps [OF dec this] show ?thesis .
  next
    case False
    then show ?thesis using less.prems b1 b2 b4 unfolding unf by (auto split: if_splits)
  qed
qed

lemma i2c_read_read_len:
  "ft260_i2c_read dev w addr data len flag = (ret, dev', w') \<Longrightarrow>
   unat (read_len dev') \<le> FT260_RD_DATA_MAX"
proof -
  assume a: "ft260_i2c_read dev w addr data len flag = (ret, dev', w')"
  define flag0 where "flag0 = (if flag AND FT260_FLAG_START_REPEATED = FT260_FLAG_START_REPEATED
                   then FT260_FLAG_START_REPEATED else FT260_FLAG_START)"
  obtain r dev1 w1 where l: "ft260_i2c_read_loop dev w addr data len flag0 True 0 = (r, dev1, w1)"
    by (cases "ft260_i2c_read_loop dev w addr data len flag0 True 0") auto
  have "dev' = dev1\<lparr>read_buf := None\<rparr>"
    using a l by (simp add: ft260_i2c_read_def flag0_def [symmetric])
  then show ?thesis using i2c_read_loop_read_len [OF l] by simp
qed


lemma status_retry_read_len:
  "status_retry n dev w b = (ret, dev', w') \<Longrightarrow> read_len dev' = read_len dev"
proof (induction n arbitrary: dev w)
  case 0
  then show ?case using xfer_status_nonpos [of dev w b ret dev' w'] by simp
next
  case (Suc n)
  obtain r1 dev1 w1 where x: "ft260_xfer_status dev w b = (r1, dev1, w1)"
    by (cases "ft260_xfer_status dev w b") auto
  show ?case
  proof (cases "r1 \<noteq> - EAGAIN")
    case True
    then show ?thesis using Suc.prems x xfer_status_nonpos [OF x] by simp
  next
    case False
    then have "status_retry n dev1 w1 b = (ret, dev', w')" using Suc.prems x by simp
    from Suc.IH [OF this] xfer_status_nonpos [OF x] show ?thesis by simp
  qed
qed

lemma check_status_read_len:
  assumes "ft260_hid_output_report_check_status dev w data len = Inr (ret, dev', w')"
  shows "read_len dev' = read_len dev"
  using assms unfolding ft260_hid_output_report_check_status_def
  by (auto simp: Let_def split: prod.splits if_splits dest: status_retry_read_len)

lemma i2c_write_loop_read_len:
  "ft260_i2c_write_loop dev w addr data len idx flag = Inr (ret, dev', w') \<Longrightarrow>
   read_len dev' = read_len dev"
proof (induction "nat len" arbitrary: dev w len idx rule: less_induct)
  case less
  define wr_len where "wr_len = (if len \<le> 60 then len else 60)"
  define src where "src = bytes_at (memory w) (nat (int data + idx)) (nat wr_len)"
  define wb1 where "wb1 = (if len \<le> 60 \<and> flag = FT260_FLAG_START_STOP
       then (write_buf dev)(rep_flag := write_buf dev rep_flag OR FT260_FLAG_STOP)
       else write_buf dev)"
  define wb3 where "wb3 = memcpy (wb1(rep_report := FT260_I2C_DATA_REPORT_ID wr_len,
       rep_address := addr, rep_length := word_of_int wr_len)) rep_data src"
  define cs where "cs = ft260_hid_output_report_check_status (dev\<lparr>write_buf := wb3\<rparr>) w wb3 (wr_len + 4)"
  have unf: "ft260_i2c_write_loop dev w addr data len idx flag =
     (case cs of Inl f \<Rightarrow> Inl f
      | Inr (ret, dev2, w2) \<Rightarrow>
          if ret < 0 then Inr (ret, dev2, w2)
          else if len - wr_len > 0
          then ft260_i2c_write_loop (dev2\<lparr>write_buf := (write_buf dev2)(rep_flag := 0)\<rparr>) w2
                 addr data (len - wr_len) (idx + wr_len) flag
          else Inr (0, dev2\<lparr>write_buf := (write_buf dev2)(rep_flag := 0)\<rparr>, w2))"
    by (subst ft260_i2c_write_loop.simps)
       (simp add: Let_def cs_def wb3_def wb1_def src_def wr_len_def FT260_WR_DATA_MAX_def
          split: sum.split prod.split)
  obtain r2 dev2 w2 where cs: "cs = Inr (r2, dev2, w2)"
    using less.prems unfolding unf by (cases cs) auto
  have rl: "read_len dev2 = read_len dev"
    using check_status_read_len [OF cs [unfolded cs_def]] by simp
  show ?case
  proof (cases "\<not> r2 < 0 \<and> len - wr_len > 0")
    case True
    then have "nat (len - wr_len) < nat len" by (auto simp: wr_len_def split: if_splits)
    from less.hyps [OF this, of "dev2\<lparr>write_buf := (write_buf dev2)(rep_flag := 0)\<rparr>" w2 "idx + wr_len"]
    show ?thesis using True cs rl less.prems unfolding unf by simp
  next
    case False
    then show ?thesis using cs rl less.prems unfolding unf by (auto split: if_splits)
  qed
qed

lemma i2c_write_read_len:
  "ft260_i2c_write dev w addr data len flag = Inr (ret, dev', w') \<Longrightarrow>
   read_len dev' = read_len dev"
  using i2c_write_loop_read_len
    [of "dev\<lparr>write_buf := (write_buf dev)(rep_flag := FT260_FLAG_START)\<rparr>" w addr data len 0 flag ret dev' w']
  by (auto simp: ft260_i2c_write_def split: if_splits)

subsection \<open>UART write\<close>

lemma uart_transmit_loop_drains:
  assumes "\<forall>k. \<not> alloc_fails w k" and "\<forall>k. 0 \<le> output_ret w k"
    and "data_len = int (length (xmit_fifo port))" and "0 < data_len"
  shows "\<exists>port' w' rs. ft260_uart_transmit_loop port w data_len = Some (0, port', w')
     \<and> xmit_fifo port' = [] \<and> port_tty port' = port_tty port
     \<and> trace w' = trace w @ map Output_report rs
     \<and> length rs = (length (xmit_fifo port) + 59) div 60
     \<and> concat (map (drop 2) rs) = xmit_fifo port
     \<and> (\<forall>r\<in>set rs. 2 < length r \<and> length r \<le> 62 \<and> unat (r ! 1) + 2 = length r)"
  using assms
proof (induction "length (xmit_fifo port)" arbitrary: port w data_len rule: less_induct)
  case less
  define n where "n = length (xmit_fifo port)"
  define l where "l = min n 60"
  define wb2 where "wb2 = memcpy ((write_buf port)(0 := FT260_UART_DATA_REPORT_ID (int l),
       1 := word_of_int (int l))) 2 (take l (xmit_fifo port))"
  define r0 where "r0 = bytes_at wb2 0 (l + 2)"
  define port1 where "port1 = port\<lparr>write_buf := wb2, xmit_fifo := drop l (xmit_fifo port)\<rparr>"
  define port2 where "port2 = port1\<lparr>icount_tx := icount_tx port1 + word_of_int (int l)\<rparr>"
  define w1 where "w1 = w\<lparr>n_alloc := Suc (n_alloc w), n_output := Suc (n_output w),
        trace := trace w @ [Output_report r0]\<rparr>"
  have n: "data_len = int n" "0 < n" using less.prems(3,4) by (simp_all add: n_def)
  have lpos: "0 < l" "l \<le> n" "l \<le> 60" using n by (simp_all add: l_def)
  have len: "min data_len (int FT260_WR_DATA_MAX) = int l"
    using n by (simp add: l_def FT260_WR_DATA_MAX_def)
  have ko: "kfifo_out (xmit_fifo port) l = (take l (xmit_fifo port), drop l (xmit_fifo port), l)"
    using lpos by (simp add: kfifo_out_def Let_def n_def min_def)
  have sent: "ft260_hid_output_report w r0 = (output_ret w (n_output w), w1)"
    using less.prems(1) by (simp add: hid_output_report_ok w1_def)
  have ok: "\<not> output_ret w (n_output w) < 0" using less.prems(2) by (simp add: not_less)
  have unf: "ft260_uart_transmit_loop port w data_len =
     (if data_len - int l > 0 then ft260_uart_transmit_loop port2 w1 (data_len - int l)
      else Some (0, port2, w1))"
    by (subst ft260_uart_transmit_loop.simps)
       (use less.prems(1) ok in \<open>simp add: Let_def len ko hid_output_report_ok wb2_def r0_def
          port1_def port2_def w1_def nat_add_distrib\<close>)
  have r0_len: "length r0 = l + 2" by (simp add: r0_def)
  have r0_1: "unat (r0 ! 1) = l"
  proof -
    have "r0 ! 1 = wb2 1" using lpos by (simp add: r0_def)
    also have "\<dots> = word_of_int (int l)" by (simp add: wb2_def)
    finally show ?thesis using lpos by (simp add: unat_of_nat)
  qed
  have tl: "length (take l (xmit_fifo port)) = l" using lpos by (simp add: n_def)
  have "drop 2 r0 = bytes_at wb2 (0 + 2) (l + 2 - 2)"
    unfolding r0_def by (rule drop_bytes_at)
  also have "\<dots> = bytes_at wb2 2 (length (take l (xmit_fifo port)))"
    by (simp only: tl add_0 add_diff_cancel_right')
  also have "\<dots> = take l (xmit_fifo port)"
    unfolding wb2_def by (rule bytes_at_memcpy)
  finally have r0_data: "drop 2 r0 = take l (xmit_fifo port)" .
  show ?case
  proof (cases "n \<le> 60")
    case True
    then have ln: "l = n" by (simp add: l_def)
    have "ft260_uart_transmit_loop port w data_len = Some (0, port2, w1)"
      unfolding unf using n ln by simp
    moreover have "xmit_fifo port2 = []" "port_tty port2 = port_tty port"
      by (simp_all add: port2_def port1_def ln n_def)
    moreover have "trace w1 = trace w @ map Output_report [r0]" by (simp add: w1_def)
    moreover have "length [r0] = (length (xmit_fifo port) + 59) div 60"
      using True n by (simp add: n_def [symmetric])
    moreover have "concat (map (drop 2) [r0]) = xmit_fifo port"
      using r0_data ln by (simp add: n_def)
    moreover have "\<forall>r\<in>set [r0]. 2 < length r \<and> length r \<le> 62 \<and> unat (r ! 1) + 2 = length r"
      using r0_len r0_1 lpos by simp
    ultimately show ?thesis by blast
  next
    case False
    then have l60: "l = 60" by (simp add: l_def)
    have rec: "ft260_uart_transmit_loop port w data_len =
       ft260_uart_transmit_loop port2 w1 (data_len - int l)"
      unfolding unf using n False l60 by simp
    have f2: "xmit_fifo port2 = drop 60 (xmit_fifo port)"
      by (simp add: port2_def port1_def l60)
    have less': "length (xmit_fifo port2) < length (xmit_fifo port)"
      using False f2 by (simp add: n_def)
    have env: "\<forall>k. \<not> alloc_fails w1 k" "\<forall>k. 0 \<le> output_ret w1 k"
      using less.prems(1,2) by (simp_all add: w1_def)
    have dl: "data_len - int l = int (length (xmit_fifo port2))" "0 < data_len - int l"
      using n False f2 l60 by (simp_all add: n_def)
    from less.hyps [OF less' env dl]
    obtain port' w' rs where ih:
      "ft260_uart_transmit_loop port2 w1 (data_len - int l) = Some (0, port', w')"
      "xmit_fifo port' = []" "port_tty port' = port_tty port2"
      "trace w' = trace w1 @ map Output_report rs"
      "length rs = (length (xmit_fifo port2) + 59) div 60"
      "concat (map (drop 2) rs) = xmit_fifo port2"
      "\<forall>r\<in>set rs. 2 < length r \<and> length r \<le> 62 \<and> unat (r ! 1) + 2 = length r"
      by blast
    have "ft260_uart_transmit_loop port w data_len = Some (0, port', w')"
      using rec ih(1) by simp
    moreover have "port_tty port' = port_tty port" using ih(3) by (simp add: port2_def port1_def)
    moreover have "trace w' = trace w @ map Output_report (r0 # rs)"
      using ih(4) by (simp add: w1_def)
    moreover have "length (r0 # rs) = (length (xmit_fifo port) + 59) div 60"
      using ih(5) f2 False by (simp add: n_def)
    moreover have "concat (map (drop 2) (r0 # rs)) = xmit_fifo port"
      using ih(6) r0_data f2 l60 by simp
    moreover have "\<forall>r\<in>set (r0 # rs). 2 < length r \<and> length r \<le> 62 \<and> unat (r ! 1) + 2 = length r"
      using ih(7) r0_len r0_1 lpos by simp
    ultimately show ?thesis using ih(2) by blast
  qed
qed


lemma output_reports_map [simp]: "output_reports (map Output_report rs) = rs"
  by (induction rs) simp_all

lemma uart_transmit_chars_drains:
  assumes "\<forall>k. \<not> alloc_fails w k" and "\<forall>k. 0 \<le> output_ret w k"
    and "port_tty port \<noteq> None" and "xmit_fifo port \<noteq> []"
  shows "\<exists>port' w' rs. ft260_uart_transmit_chars port w = Some (0, port', w')
     \<and> xmit_fifo port' = []
     \<and> output_reports (trace w') = output_reports (trace w) @ rs
     \<and> length rs = (length (xmit_fifo port) + 59) div 60
     \<and> concat (map (drop 2) rs) = xmit_fifo port"
proof -
  have pos: "0 < int (length (xmit_fifo port))" using assms(4) by simp
  from uart_transmit_loop_drains [OF assms(1,2) refl pos]
  obtain port' w1 rs where l:
    "ft260_uart_transmit_loop port w (int (length (xmit_fifo port))) = Some (0, port', w1)"
    "xmit_fifo port' = []" "trace w1 = trace w @ map Output_report rs"
    "length rs = (length (xmit_fifo port) + 59) div 60"
    "concat (map (drop 2) rs) = xmit_fifo port"
    by blast
  obtain y where y: "port_tty port = Some y" using assms(3) by auto
  have "ft260_uart_transmit_chars port w = Some (0, port', log_event Tty_wakeup w1)"
    using assms(4) l(1,2) y
    by (simp add: ft260_uart_transmit_chars_def Let_def FIFO_SIZE_def TTY_WAKEUP_WATERMARK_def)
  moreover have "output_reports (trace (log_event Tty_wakeup w1)) = output_reports (trace w) @ rs"
    using l(3) by (simp add: log_event_def)
  ultimately show ?thesis using l(2,4,5) by blast
qed

text \<open>
  C7. Take a UART write of \<open>count\<close> bytes (\<open>0 \<le> count\<close>, an \<open>int\<close>) on a port with a
  tty attached, in an environment where every allocation and every output report
  succeeds. The call returns the number of bytes that fitted into the queue,
  \<open>min count (FIFO_SIZE - queued)\<close>: \<open>count\<close> itself when it is at most the free
  space, the free space (not an error) when it is more. The queue is drained by
  \<open>\<lceil>n / 60\<rceil>\<close> output reports, \<open>n\<close> being the bytes in the queue after the enqueue, and
  their payloads, concatenated, are the bytes that were queued followed by the bytes
  accepted from \<open>buf\<close>. The partial loop function returns a result here.
\<close>

theorem uart_write_accepts_and_drains:
  assumes "port_tty port \<noteq> None" and "0 \<le> count" and "count < 2 ^ 31"
    and "\<forall>k. \<not> alloc_fails w k" and "\<forall>k. 0 \<le> output_ret w k"
  shows "\<exists>port' w' rs.
     ft260_uart_write port w buf count =
       Some (int (min (nat count) (FIFO_SIZE - length (xmit_fifo port))), port', w')
     \<and> output_reports (trace w') = output_reports (trace w) @ rs
     \<and> length rs = (length (xmit_fifo port) +
                      min (nat count) (FIFO_SIZE - length (xmit_fifo port)) + 59) div 60
     \<and> concat (map (drop 2) rs) =
         xmit_fifo port @ bytes_at (memory w) buf
           (min (nat count) (FIFO_SIZE - length (xmit_fifo port)))
     \<and> xmit_fifo port' = []"
proof -
  define l where "l = min (nat count) (FIFO_SIZE - length (xmit_fifo port))"
  define fifo1 where "fifo1 = xmit_fifo port @ bytes_at (memory w) buf l"
  define port1 where "port1 = port\<lparr>xmit_fifo := fifo1\<rparr>"
  have cm: "count mod 2 ^ 32 = count" using assms(2,3) by simp
  have ki: "kfifo_in (xmit_fifo port) (memory w) buf (nat (count mod 2 ^ 32)) = (fifo1, l)"
    unfolding cm by (simp add: kfifo_in_def Let_def l_def fifo1_def)
  have unf: "ft260_uart_write port w buf count =
     (case ft260_uart_transmit_chars port1 w of
           None \<Rightarrow> None
         | Some (ret, port2, w2) \<Rightarrow>
             if ret < 0 then Some (0, port2, w2)
             else
               (let ret' = int (length (xmit_fifo port2))
                in if ret' > 0 then Some (int l - ret', port2, w2)
                   else Some (int l, port2, w2)))"
    unfolding ft260_uart_write_def ki by (simp add: port1_def)
  have len1: "length fifo1 = length (xmit_fifo port) + l" by (simp add: fifo1_def)
  show ?thesis
  proof (cases "fifo1 = []")
    case True
    then have l0: "l = 0" and e: "xmit_fifo port = []" using len1 by simp_all
    have "ft260_uart_transmit_chars port1 w = Some (- EINVAL, port1, w)"
      using True by (simp add: ft260_uart_transmit_chars_def port1_def)
    then have "ft260_uart_write port w buf count = Some (0, port1, w)"
      unfolding unf by (simp add: EINVAL_def)
    moreover have "xmit_fifo port1 = []" using True by (simp add: port1_def)
    ultimately have "ft260_uart_write port w buf count = Some (int l, port1, w)
     \<and> output_reports (trace w) = output_reports (trace w) @ []
     \<and> length ([] :: u8 list list) = (length (xmit_fifo port) + l + 59) div 60
     \<and> concat (map (drop 2) []) = xmit_fifo port @ bytes_at (memory w) buf l
     \<and> xmit_fifo port1 = []"
      using l0 e by (simp add: bytes_at_def)
    then show ?thesis unfolding l_def by blast
  next
    case False
    have t: "port_tty port1 \<noteq> None" and f: "xmit_fifo port1 \<noteq> []"
      using assms(1) False by (simp_all add: port1_def)
    from uart_transmit_chars_drains [OF assms(4,5) t f]
    obtain port' w' rs where d: "ft260_uart_transmit_chars port1 w = Some (0, port', w')"
      "xmit_fifo port' = []" "output_reports (trace w') = output_reports (trace w) @ rs"
      "length rs = (length (xmit_fifo port1) + 59) div 60"
      "concat (map (drop 2) rs) = xmit_fifo port1"
      by blast
    have "ft260_uart_write port w buf count = Some (int l, port', w')"
      unfolding unf using d(1,2) by simp
    moreover have "length rs = (length (xmit_fifo port) + l + 59) div 60"
      using d(4) len1 by (simp add: port1_def)
    moreover have "concat (map (drop 2) rs) = xmit_fifo port @ bytes_at (memory w) buf l"
      using d(5) by (simp add: port1_def fifo1_def)
    ultimately show ?thesis using d(2,3) unfolding l_def by blast
  qed
qed

theorem uart_write_accepts_and_drains_witness:
  "port_tty port0 \<noteq> None \<and> (0::int) \<le> 300 \<and> (300::int) < 2 ^ 31 \<and>
   (\<forall>k. \<not> alloc_fails world0 k) \<and> (\<forall>k. 0 \<le> output_ret world0 k) \<and>
   map_option fst (ft260_uart_write port0 world0 0 300) = Some 256"
proof -
  have h1: "port_tty port0 \<noteq> None" by (simp add: port0_def)
  have h2: "(0::int) \<le> 300" and h3: "(300::int) < 2 ^ 31" by simp_all
  have h4: "\<forall>k. \<not> alloc_fails world0 k" and h5: "\<forall>k. 0 \<le> output_ret world0 k"
    by (simp_all add: world0_def)
  from uart_write_accepts_and_drains [OF h1 h2 h3 h4 h5, of 0]
  obtain port' w' where
    "ft260_uart_write port0 world0 0 300 =
       Some (int (min (nat 300) (FIFO_SIZE - length (xmit_fifo port0))), port', w')"
    by blast
  then have "map_option fst (ft260_uart_write port0 world0 0 300) = Some 256"
    by (simp add: port0_def dev0_def FIFO_SIZE_def)
  then show ?thesis using h1 h4 h5 by simp
qed

subsection \<open>UART configuration\<close>

lemma le32_9600: "put_unaligned_le32 9600 = [0x80, 0x25, 0, 0]"
  by (simp add: put_unaligned_le32_def)

text \<open>
  C9. When the baud rate that \<open>tty_termios_baud_rate\<close> gives for the termios (after
  the data-bit switch) is 0, below 1200 or above 12000000, the port has a tty attached
  and the allocation of the request succeeds, \<open>ft260_uart_change_speed\<close> sends one
  configuration report whose baud-rate field is 9600 (\<open>le32_9600\<close>), stores
  \<open>tty_encode_baud_rate tty 9600 9600\<close> in the termios of the port's tty, and returns what
  the transport returned for the report, not a range error.
\<close>

theorem change_speed_invalid_baud:
  assumes "port_tty port = Some tty"
    and "termios1 = snd (data_bits_switch (tty_termios w t))"
    and "baud = tty_termios_baud_rate w termios1"
    and "baud = 0 \<or> baud < 1200 \<or> 12000000 < baud"
    and "\<not> alloc_fails w (n_alloc w)"
  shows "\<exists>w' req.
     ft260_uart_change_speed port w t = Inr (fst (request_ret w (n_request w)), port, w')
     \<and> trace w' = trace w @ [Set_report req]
     \<and> length req = 11
     \<and> take 4 (drop 3 req) = put_unaligned_le32 9600
     \<and> tty_termios w' tty =
         tty_encode_baud_rate w (((tty_termios w)(t := termios1)) tty) 9600 9600"
  using assms
  by (auto simp: ft260_uart_change_speed_def Let_def ft260_hid_feature_report_set_def
       kmalloc_def log_event_def configure_uart_request_def put_unaligned_le32_def
       FT260_CFG_BAUD_MIN_def FT260_CFG_BAUD_MAX_def split: prod.splits sum.splits)

theorem change_speed_invalid_baud_witness:
  "port_tty port0 = Some 0 \<and>
   tty_termios_baud_rate world0 (snd (data_bits_switch (tty_termios world0 0))) = 0 \<and>
   \<not> alloc_fails world0 (n_alloc world0) \<and>
   returned (ft260_uart_change_speed port0 world0 0) = Some 5 \<and>
   c_ospeed (tty_termios (final_world (ft260_uart_change_speed port0 world0 0)) 0) = 9600"
proof -
  have h1: "port_tty port0 = Some 0" by (simp add: port0_def)
  have h3: "tty_termios_baud_rate world0 (snd (data_bits_switch (tty_termios world0 0))) = 0"
    by (simp add: world0_def data_bits_switch_def termios0_def Let_def CSIZE_def CS7_def CS5_def CS6_def)
  have h4: "tty_termios_baud_rate world0 (snd (data_bits_switch (tty_termios world0 0))) = 0 \<or>
     tty_termios_baud_rate world0 (snd (data_bits_switch (tty_termios world0 0))) < 1200 \<or>
     12000000 < tty_termios_baud_rate world0 (snd (data_bits_switch (tty_termios world0 0)))"
    using h3 by simp
  have h5: "\<not> alloc_fails world0 (n_alloc world0)" by (simp add: world0_def)
  from change_speed_invalid_baud [OF h1 refl refl h4 h5]
  obtain w' where e: "ft260_uart_change_speed port0 world0 0 =
        Inr (fst (request_ret world0 (n_request world0)), port0, w')"
    and t: "tty_termios w' 0 = tty_encode_baud_rate world0
        (((tty_termios world0)(0 := snd (data_bits_switch (tty_termios world0 0)))) 0) 9600 9600"
    by blast
  have "c_ospeed (tty_termios w' 0) = 9600" unfolding t by (simp add: world0_def)
  moreover have "fst (request_ret world0 (n_request world0)) = 5" by (simp add: world0_def)
  ultimately show ?thesis using h1 h3 h5 e by (simp add: returned_def final_world_def)
qed

subsection \<open>Keep-alive\<close>

lemma closed_step_quiet:
  assumes "\<not> reschedule_work dev" and "c \<in> {Timer_expires, Work_runs, Line_close}"
  shows "\<exists>dev'. uart_step c dev w = Some (dev', w) \<and> \<not> reschedule_work dev' \<and>
           (timer_pending dev' \<longrightarrow> timer_pending dev \<and> c \<noteq> Timer_expires) \<and>
           (work_pending dev' \<longrightarrow> work_pending dev \<and> c \<noteq> Work_runs)"
  using assms
  by (auto simp: ft260_uart_start_wakeup_def ft260_uart_do_wakeup_def ft260_uart_shutdown_def)

lemma closed_run_quiet:
  assumes "\<not> reschedule_work dev" and "set cs \<subseteq> {Timer_expires, Work_runs, Line_close}"
  shows "snd (uart_run cs dev w) = w \<and> \<not> reschedule_work (fst (uart_run cs dev w)) \<and>
         (timer_pending (fst (uart_run cs dev w)) \<longrightarrow>
            timer_pending dev \<and> Timer_expires \<notin> set cs) \<and>
         (work_pending (fst (uart_run cs dev w)) \<longrightarrow>
            work_pending dev \<and> Work_runs \<notin> set cs)"
  using assms
proof (induction cs arbitrary: dev)
  case Nil
  then show ?case by simp
next
  case (Cons c cs)
  from Cons.prems(2) have c: "c \<in> {Timer_expires, Work_runs, Line_close}"
    and cs: "set cs \<subseteq> {Timer_expires, Work_runs, Line_close}" by auto
  from closed_step_quiet [OF Cons.prems(1) c, of w] obtain dev1 where
    s: "uart_step c dev w = Some (dev1, w)" and n: "\<not> reschedule_work dev1"
    and t: "timer_pending dev1 \<longrightarrow> timer_pending dev \<and> c \<noteq> Timer_expires"
    and j: "work_pending dev1 \<longrightarrow> work_pending dev \<and> c \<noteq> Work_runs" by blast
  from Cons.IH [OF n cs] t j show ?case using s by auto
qed




end
